theory Spec2Isabelle
  imports Complex_Main "HOL-Library.Word" "HOL-Library.Sublist"
begin

section \<open>JavaScript strings\<close>

text \<open>
  A JavaScript string is a sequence of 16-bit code units. The source's string literals
  are ASCII, written here with \<open>js\<close>; the backslash is given by its code unit.
\<close>

type_synonym cu = "16 word"
type_synonym jstring = "cu list"

definition js :: "string \<Rightarrow> jstring" where
  "js s = map (\<lambda>c. of_nat (of_char c)) s"

definition bslash :: cu where
  "bslash = 0x5C"

text \<open>
  The code units matched by \<open>\s\<close> and stripped by \<open>trim\<close>: ECMAScript's
  WhiteSpace and LineTerminator.
\<close>

definition whiteSpaceChars :: "cu list" where
  "whiteSpaceChars =
     [0x0009, 0x000A, 0x000B, 0x000C, 0x000D, 0x0020, 0x00A0, 0x1680,
      0x2000, 0x2001, 0x2002, 0x2003, 0x2004, 0x2005, 0x2006, 0x2007,
      0x2008, 0x2009, 0x200A, 0x2028, 0x2029, 0x202F, 0x205F, 0x3000, 0xFEFF]"

definition isWhiteSpace :: "cu \<Rightarrow> bool" where
  "isWhiteSpace c = (c \<in> set whiteSpaceChars)"

text \<open>\<open>String.prototype.trim\<close>.\<close>

definition trim :: "jstring \<Rightarrow> jstring" where
  "trim s = rev (dropWhile isWhiteSpace (rev (dropWhile isWhiteSpace s)))"

text \<open>\<open>String.prototype.includes\<close>.\<close>

definition includesStr :: "jstring \<Rightarrow> jstring \<Rightarrow> bool" where
  "includesStr s needle = sublist needle s"

text \<open>
  Number-to-string conversion of a template literal, for integral values (decimal
  digits, a leading minus sign for negative values).
\<close>

fun digitsOf :: "nat \<Rightarrow> nat \<Rightarrow> jstring" where
  "digitsOf 0 n = []"
| "digitsOf (Suc fuel) n =
     (if n < 10 then [of_nat (48 + n)]
      else digitsOf fuel (n div 10) @ [of_nat (48 + n mod 10)])"

definition natToString :: "nat \<Rightarrow> jstring" where
  "natToString n = digitsOf (Suc n) n"

definition numberToString :: "int \<Rightarrow> jstring" where
  "numberToString i = (if i < 0 then js ''-'' @ natToString (nat (- i)) else natToString (nat i))"

text \<open>
  The same conversion for a number that need not be integral: a finite number is a
  rational. The text of a number that is not integral is the runtime's, the parameter
  \<open>fractionText\<close>.
\<close>

definition numberText :: "(rat \<Rightarrow> jstring) \<Rightarrow> rat \<Rightarrow> jstring" where
  "numberText fractionText x =
     (if of_int \<lfloor>x\<rfloor> = x then numberToString \<lfloor>x\<rfloor> else fractionText x)"

section \<open>Regular expressions, as far as the completion pattern needs them\<close>

text \<open>
  The pattern built by \<open>checkCompletion\<close> is a sequence of terms, each an atom or an
  atom under \<open>*\<close>. An atom is a pattern character (a literal, possibly written as an
  identity escape of a syntax character) or the class escape \<open>\s\<close>. Every other
  construct of the pattern language is outside this fragment and the parser answers
  \<open>None\<close> for it, as it does where the constructor would raise a SyntaxError.
\<close>

datatype atom = PatternChar cu | ClassEscape_s

datatype rterm = Single atom | Star atom

definition syntaxChars :: "cu list" where
  "syntaxChars = js ''^$.*+?()[]{}|'' @ [bslash]"

definition isSyntaxCharacter :: "cu \<Rightarrow> bool" where
  "isSyntaxCharacter c = (c \<in> set syntaxChars)"

definition parseAtom :: "jstring \<Rightarrow> (atom \<times> jstring) option" where
  "parseAtom p =
     (case p of
        [] \<Rightarrow> None
      | c # cs \<Rightarrow>
          if c = bslash then
            (case cs of
               [] \<Rightarrow> None
             | e # r \<Rightarrow>
                 if e = 0x73 then Some (ClassEscape_s, r)
                 else if isSyntaxCharacter e then Some (PatternChar e, r)
                 else None)
          else if isSyntaxCharacter c then None
          else Some (PatternChar c, cs))"

definition parseQuantifier :: "jstring \<Rightarrow> bool \<times> jstring" where
  "parseQuantifier p =
     (case p of
        [] \<Rightarrow> (False, [])
      | q # r \<Rightarrow> if q = 0x2A then (True, r) else (False, q # r))"

function parseTerms :: "jstring \<Rightarrow> rterm list option" where
  "parseTerms p =
     (if p = [] then Some []
      else
        (case parseAtom p of
           None \<Rightarrow> None
         | Some (a, r) \<Rightarrow>
             (case parseQuantifier r of
                (starred, r') \<Rightarrow>
                  map_option (Cons (if starred then Star a else Single a)) (parseTerms r'))))"
  by pat_completeness auto
termination
proof (relation "measure length")
  show "wf (measure length)" by simp
next
  fix p :: jstring and x2 a r starred r'
  assume "parseAtom p = Some x2" "(a, r) = x2" "(starred, r') = parseQuantifier r"
  then have "length r < length p" "length r' \<le> length r"
    by (auto simp: parseAtom_def parseQuantifier_def split: list.splits if_splits)
  then show "(r', p) \<in> measure length" by simp
qed

declare parseTerms.simps [simp del]

text \<open>
  Case-insensitive matching without the unicode flag compares canonicalised code units
  (ECMAScript's Canonicalize): the upper-case mapping of the code unit when that is a
  single code unit, except that a non-ASCII code unit is never mapped into ASCII. The
  mapping for ASCII is written out; for the other code units it is the runtime's Unicode
  table, the parameter \<open>toUpper\<close>, which gives a code unit back unchanged when its
  upper-case form is not a single code unit.
\<close>

definition canonicalize :: "(cu \<Rightarrow> cu) \<Rightarrow> cu \<Rightarrow> cu" where
  "canonicalize toUpper ch =
     (if ch < 128 then (if 97 \<le> ch \<and> ch \<le> 122 then ch - 32 else ch)
      else (let u = toUpper ch in if u < 128 then ch else u))"

fun atomMatches :: "(cu \<Rightarrow> cu) \<Rightarrow> atom \<Rightarrow> cu \<Rightarrow> bool" where
  "atomMatches toUpper (PatternChar p) ch = (canonicalize toUpper p = canonicalize toUpper ch)"
| "atomMatches toUpper ClassEscape_s ch =
     list_ex (\<lambda>a. canonicalize toUpper a = canonicalize toUpper ch) whiteSpaceChars"

fun matchHere :: "(cu \<Rightarrow> cu) \<Rightarrow> rterm list \<Rightarrow> jstring \<Rightarrow> bool" where
  "matchHere toUpper [] s = True"
| "matchHere toUpper (Single a # ts) [] = False"
| "matchHere toUpper (Single a # ts) (c # cs) = (atomMatches toUpper a c \<and> matchHere toUpper ts cs)"
| "matchHere toUpper (Star a # ts) [] = matchHere toUpper ts []"
| "matchHere toUpper (Star a # ts) (c # cs) =
     ((atomMatches toUpper a c \<and> matchHere toUpper (Star a # ts) cs) \<or> matchHere toUpper ts (c # cs))"

text \<open>\<open>RegExp.prototype.test\<close> of a fresh, non-global expression: a match at some position.\<close>

fun regexTest :: "(cu \<Rightarrow> cu) \<Rightarrow> rterm list \<Rightarrow> jstring \<Rightarrow> bool" where
  "regexTest toUpper ts [] = matchHere toUpper ts []"
| "regexTest toUpper ts (c # cs) = (matchHere toUpper ts (c # cs) \<or> regexTest toUpper ts cs)"

section \<open>The completion matcher (both drivers)\<close>

text \<open>\<open>str.replace(/[.*+?^${}()|[\]\\]/g, "\\$&")\<close>\<close>

definition escapedChars :: "cu list" where
  "escapedChars = js ''.*+?^${}()|[]'' @ [bslash]"

definition escapeRegex :: "jstring \<Rightarrow> jstring" where
  "escapeRegex str = concat (map (\<lambda>c. if c \<in> set escapedChars then [bslash, c] else [c]) str)"

definition promisePattern :: "jstring \<Rightarrow> jstring" where
  "promisePattern promise =
     js ''<promise>'' @ [bslash] @ js ''s*'' @ escapeRegex promise @ [bslash] @ js ''s*</promise>''"

text \<open>
  \<open>new RegExp(pattern, "i").test(output)\<close>; \<open>None\<close> is the constructor raising.
\<close>

definition checkCompletion :: "(cu \<Rightarrow> cu) \<Rightarrow> jstring \<Rightarrow> jstring \<Rightarrow> bool option" where
  "checkCompletion toUpper output promise =
     map_option (\<lambda>ts. regexTest toUpper ts output) (parseTerms (promisePattern promise))"


section \<open>Persisted loop state\<close>

text \<open>
  \<open>RalphState\<close> of both drivers; the fields that only the in-host driver declares,
  and \<open>model\<close>, which it declares optional, are options. The iteration counter is an
  integer: both drivers set it to 1 and increment it. \<open>maxIterations\<close> is any finite
  number: the external driver stores the integer that \<open>parseInt\<close> gives, the in-host
  driver the number its \<open>ralph_start\<close> tool is called with.
\<close>

record RalphState =
  active :: bool
  iteration :: int
  maxIterations :: rat
  completionPromise :: jstring
  prompt :: jstring
  startedAt :: jstring
  sessionId :: "jstring option"
  model :: "jstring option"
  lastOutput :: "jstring option"

text \<open>
  The state file holds either the JSON text of a record (\<open>JSON.parse\<close> gives the record
  back) or anything else, on which \<open>JSON.parse\<close> raises. The file system calls that change
  something, and the other actions on the outside world, are recorded in the order they
  are made. The file system itself is taken to be reliable: its calls do not raise.
  Console output is left out.
\<close>

datatype content = Json RalphState | Unparsable

datatype path = StateDir | StatePath | NoPluginsConfigPath | OtherPath jstring

datatype payload = StateJson RalphState | PluginsConfigJson

datatype effect =
    MkdirSync path
  | WriteFileSync path payload
  | RenameSync path path
  | UnlinkSync path
  | Spawn "jstring list"
  | GitStatus
  | GitAdd
  | GitCommit int
  | Sleep nat
  | SessionPrompt jstring jstring

record world =
  dirExists :: bool
  stateFile :: "content option"
  effects :: "effect list"

definition emit :: "effect \<Rightarrow> 'a world_scheme \<Rightarrow> 'a world_scheme" where
  "emit e w = w\<lparr>effects := effects w @ [e]\<rparr>"

definition ensureStateDir :: "'a world_scheme \<Rightarrow> 'a world_scheme" where
  "ensureStateDir w = (if \<not> dirExists w then emit (MkdirSync StateDir) (w\<lparr>dirExists := True\<rparr>) else w)"

definition saveState :: "RalphState \<Rightarrow> 'a world_scheme \<Rightarrow> 'a world_scheme" where
  "saveState state w =
     emit (WriteFileSync StatePath (StateJson state)) ((ensureStateDir w)\<lparr>stateFile := Some (Json state)\<rparr>)"

definition loadState :: "'a world_scheme \<Rightarrow> RalphState option" where
  "loadState w =
     (case stateFile w of
        None \<Rightarrow> None
      | Some Unparsable \<Rightarrow> None
      | Some (Json state) \<Rightarrow> Some state)"

definition clearState :: "'a world_scheme \<Rightarrow> 'a world_scheme" where
  "clearState w =
     (if stateFile w \<noteq> None then emit (UnlinkSync StatePath) (w\<lparr>stateFile := None\<rparr>) else w)"

text \<open>\<open>existingState?.active\<close>, and \<open>!state || !state.active\<close> negated.\<close>

definition isActive :: "RalphState option \<Rightarrow> bool" where
  "isActive s = (case s of None \<Rightarrow> False | Some state \<Rightarrow> active state)"

section \<open>The prompt builders\<close>

definition iterationSuffix :: "(rat \<Rightarrow> jstring) \<Rightarrow> RalphState \<Rightarrow> jstring" where
  "iterationSuffix fractionText state =
     (if maxIterations state > 0 then js '' / '' @ numberText fractionText (maxIterations state)
      else js '' (unlimited)'')"

text \<open>
  The fixed stretches of the two template literals, cut where a value is spliced in.
  The instructions and the head of the rules are the same text in both drivers.
\<close>

definition introText :: jstring where
  "introText = js ''\<newline>\<newline>You are in an iterative development loop. Work on the task below until you can genuinely complete it.\<newline>\<newline>## Your Task\<newline>\<newline>''"

definition hostIntroText :: jstring where
  "hostIntroText = js ''\<newline>\<newline>You are in an iterative development loop. Work on the task below until completion.\<newline>\<newline>## Your Task\<newline>\<newline>''"

definition instructionsText :: jstring where
  "instructionsText = js ''\<newline>\<newline>## Instructions\<newline>\<newline>1. Read the current state of files to understand what's been done\<newline>2. Make progress on the task\<newline>3. Run tests/verification if applicable\<newline>4. When the task is GENUINELY COMPLETE, output:\<newline>   ''"

definition rulesHeadText :: jstring where
  "rulesHeadText = js ''\<newline>\<newline>## Critical Rules\<newline>\<newline>- ONLY output ''"

definition rulesText :: jstring where
  "rulesText = js '' when the task is truly done\<newline>- Do NOT lie or output false promises to exit the loop\<newline>- If stuck, try a different approach\<newline>- Check your work before claiming completion\<newline>- The loop will continue until you succeed\<newline>\<newline>## Current Iteration: ''"

definition hostRulesText :: jstring where
  "hostRulesText = js '' when the task is truly done\<newline>- Do NOT lie or output false promises to exit the loop\<newline>- If stuck, try a different approach\<newline>- Check your work before claiming completion\<newline>\<newline>## Current Iteration: ''"

text \<open>\<open>buildPrompt\<close> of the external driver: the template literal, trimmed.\<close>

definition buildPrompt :: "(rat \<Rightarrow> jstring) \<Rightarrow> RalphState \<Rightarrow> jstring" where
  "buildPrompt fractionText state = trim (
     js ''\<newline># Ralph Wiggum Loop - Iteration '' @ numberToString (iteration state) @
     introText @ prompt state @ instructionsText @
     js ''<promise>'' @ completionPromise state @ js ''</promise>'' @
     rulesHeadText @
     js ''<promise>'' @ completionPromise state @ js ''</promise>'' @
     rulesText @ numberToString (iteration state) @ iterationSuffix fractionText state @
     js ''\<newline>\<newline>Now, work on the task. Good luck!\<newline>'')"

text \<open>\<open>buildIterationPrompt\<close> of the in-host driver.\<close>

definition buildIterationPrompt :: "(rat \<Rightarrow> jstring) \<Rightarrow> RalphState \<Rightarrow> jstring" where
  "buildIterationPrompt fractionText state =
     js ''# Ralph Wiggum Loop - Iteration '' @ numberToString (iteration state) @
     hostIntroText @ prompt state @ instructionsText @
     js ''<promise>'' @ completionPromise state @ js ''</promise>'' @
     rulesHeadText @
     js ''<promise>'' @ completionPromise state @ js ''</promise>'' @
     hostRulesText @ numberToString (iteration state) @ iterationSuffix fractionText state @
     js ''\<newline>\<newline>Now, continue working on the task.''"

section \<open>The external driver: command line\<close>



text \<open>The module-level variables that the option loop fills.\<close>

record options =
  optPrompt :: jstring
  optMaxIterations :: int
  optCompletionPromise :: jstring
  optModel :: jstring
  optAutoCommit :: bool
  optDisablePlugins :: bool

definition defaultOptions :: options where
  "defaultOptions =
     \<lparr>optPrompt = [], optMaxIterations = 0, optCompletionPromise = js ''COMPLETE'',
      optModel = [], optAutoCommit = True, optDisablePlugins = False\<rparr>"




section \<open>The external driver: the loop\<close>

text \<open>
  What the outside world answers in one iteration: the agent process (its standard
  output, standard error and exit code, or an exception raised when it is started), and
  the working tree as \<open>git\<close> sees it when the auto-commit runs (a failure of any
  \<open>git\<close> command is swallowed by the driver).
\<close>

datatype agentRun = Finished jstring jstring int | SpawnFailed

datatype gitOutcome = GitClean | GitDirty | GitFailed

datatype outcome = Exited int | StillRunning RalphState

datatype 'w stepResult = Stop int 'w | Continue RalphState 'w

definition detectPlaceholderPluginError :: "jstring \<Rightarrow> bool" where
  "detectPlaceholderPluginError output =
     includesStr output (js ''ralph-wiggum is not yet ready for use. This is a placeholder package.'')"

definition ensureFilteredPluginsConfig :: "'a world_scheme \<Rightarrow> 'a world_scheme" where
  "ensureFilteredPluginsConfig w = emit (WriteFileSync NoPluginsConfigPath PluginsConfigJson) (ensureStateDir w)"

definition cmdArgs :: "(rat \<Rightarrow> jstring) \<Rightarrow> options \<Rightarrow> RalphState \<Rightarrow> jstring list" where
  "cmdArgs fractionText opts state =
     [js ''run''] @ (if optModel opts \<noteq> [] then [js ''-m'', optModel opts] else []) @ [buildPrompt fractionText state]"

definition autoCommit :: "gitOutcome \<Rightarrow> RalphState \<Rightarrow> 'a world_scheme \<Rightarrow> 'a world_scheme" where
  "autoCommit git state w =
     (case git of
        GitDirty \<Rightarrow> emit (GitCommit (iteration state)) (emit GitAdd (emit GitStatus w))
      | GitClean \<Rightarrow> emit GitStatus w
      | GitFailed \<Rightarrow> emit GitStatus w)"

text \<open>
  The \<open>maxIterations > 0 && state.iteration > maxIterations\<close> test of both drivers, on
  numbers of one kind: integers in the external driver, whose limit is the integer of
  the command line, and rationals in the in-host driver, whose limit is the stored
  number.
\<close>

definition maxIterationsReached :: "'a::{zero,ord} \<Rightarrow> 'a \<Rightarrow> bool" where
  "maxIterationsReached maxIt it = (maxIt > 0 \<and> it > maxIt)"

text \<open>The \<open>catch\<close> block of the loop body.\<close>

definition catchBlock :: "RalphState \<Rightarrow> 'a world_scheme \<Rightarrow> 'a world_scheme stepResult" where
  "catchBlock state w =
     (let state' = state\<lparr>iteration := iteration state + 1\<rparr>
      in Continue state' (emit (Sleep 2000) (saveState state' w)))"

text \<open>
  The loop body after the max-iterations test. \<open>Stop c\<close> is the process ending with exit
  code \<open>c\<close>: by \<open>process.exit(c)\<close>, or by leaving the loop (\<open>c = 0\<close>).
\<close>

definition iterationBody ::
  "(cu \<Rightarrow> cu) \<Rightarrow> (rat \<Rightarrow> jstring) \<Rightarrow> options \<Rightarrow> agentRun \<times> gitOutcome \<Rightarrow> RalphState \<Rightarrow> 'a world_scheme \<Rightarrow> 'a world_scheme stepResult" where
  "iterationBody toUpper fractionText opts env state w =
     (let w1 = (if optDisablePlugins opts then ensureFilteredPluginsConfig w else w);
          w2 = emit (Spawn (js ''opencode'' # cmdArgs fractionText opts state)) w1
      in case fst env of
           SpawnFailed \<Rightarrow> catchBlock state w2
         | Finished result stderr exitCode \<Rightarrow>
             if detectPlaceholderPluginError stderr \<or> detectPlaceholderPluginError result
             then Stop 1 (clearState w2)
             else if exitCode \<noteq> 0 then Stop exitCode (clearState w2)
             else (case checkCompletion toUpper result (optCompletionPromise opts) of
                     None \<Rightarrow> catchBlock state w2
                   | Some True \<Rightarrow> Stop 0 (clearState w2)
                   | Some False \<Rightarrow>
                       (let w3 = (if optAutoCommit opts then autoCommit (snd env) state w2 else w2);
                            state' = state\<lparr>iteration := iteration state + 1\<rparr>
                        in Continue state' (emit (Sleep 1000) (saveState state' w3)))))"

text \<open>
  \<open>while (true)\<close>, over the answers of the outside world so far; when they are used up
  the driver is \<open>StillRunning\<close>, about to start the agent for the state's iteration.
  The interrupt handler is left out (no signal arrives), and so is the script's final
  \<open>catch\<close>, which only an exception of the file system reaches.
\<close>

fun mainLoop ::
  "(cu \<Rightarrow> cu) \<Rightarrow> (rat \<Rightarrow> jstring) \<Rightarrow> options \<Rightarrow> (agentRun \<times> gitOutcome) list \<Rightarrow> RalphState \<Rightarrow> 'a world_scheme \<Rightarrow> outcome \<times> 'a world_scheme" where
  "mainLoop toUpper fractionText opts [] state w =
     (if maxIterationsReached (optMaxIterations opts) (iteration state) then (Exited 0, clearState w)
      else (StillRunning state, w))"
| "mainLoop toUpper fractionText opts (env # envs) state w =
     (if maxIterationsReached (optMaxIterations opts) (iteration state) then (Exited 0, clearState w)
      else (case iterationBody toUpper fractionText opts env state w of
              Stop c w' \<Rightarrow> (Exited c, w')
            | Continue state' w' \<Rightarrow> mainLoop toUpper fractionText opts envs state' w'))"

definition initialState :: "options \<Rightarrow> jstring \<Rightarrow> RalphState" where
  "initialState opts now =
     \<lparr>active = True, iteration = 1, maxIterations = of_int (optMaxIterations opts),
      completionPromise = optCompletionPromise opts, prompt = optPrompt opts,
      startedAt = now, sessionId = None, model = Some (optModel opts), lastOutput = None\<rparr>"

text \<open>\<open>runRalphLoop\<close>; \<open>now\<close> is \<open>new Date().toISOString()\<close>.\<close>

definition runRalphLoop ::
  "(cu \<Rightarrow> cu) \<Rightarrow> (rat \<Rightarrow> jstring) \<Rightarrow> options \<Rightarrow> jstring \<Rightarrow> (agentRun \<times> gitOutcome) list \<Rightarrow> 'a world_scheme \<Rightarrow> outcome \<times> 'a world_scheme" where
  "runRalphLoop toUpper fractionText opts now envs w =
     (if isActive (loadState w) then (Exited 1, w)
      else mainLoop toUpper fractionText opts envs (initialState opts now) (saveState (initialState opts now) w))"

section \<open>The in-host driver\<close>

text \<open>
  The plugin's closure holds \<open>isProcessing\<close>. An event carries its type and, read
  through \<open>any\<close>, an optional session id, role and content.
\<close>

record hostWorld = world +
  isProcessing :: bool

record part =
  partType :: jstring
  partText :: "jstring option"

datatype msgContent = NoText | Text jstring | Parts "part list"

datatype event =
    SessionIdle "jstring option"
  | MessageUpdated "jstring option" msgContent
  | OtherEvent

datatype handlerStatus = Returned | AwaitingPrompt | Raised

text \<open>Truthiness of an optional string, and \<open>a || b\<close> on two of them.\<close>

definition truthy :: "jstring option \<Rightarrow> bool" where
  "truthy s = (case s of None \<Rightarrow> False | Some t \<Rightarrow> t \<noteq> [])"

definition orElse :: "jstring option \<Rightarrow> jstring option \<Rightarrow> jstring option" where
  "orElse a b = (if truthy a then a else b)"

definition stringOf :: "jstring option \<Rightarrow> jstring" where
  "stringOf s = (case s of None \<Rightarrow> [] | Some t \<Rightarrow> t)"

text \<open>
  The text of a message: the string itself, or the texts of an array's text parts
  joined; a content that is absent, falsy or of another shape gives no text.
\<close>

definition textContentOf :: "msgContent \<Rightarrow> jstring" where
  "textContentOf c =
     (case c of
        NoText \<Rightarrow> []
      | Text t \<Rightarrow> t
      | Parts ps \<Rightarrow> concat (map (\<lambda>p. stringOf (partText p)) (filter (\<lambda>p. partType p = js ''text'') ps)))"

text \<open>
  The \<open>session.idle\<close> block of the event handler, entered when \<open>isProcessing\<close> is unset,
  up to the \<open>await\<close> of the prompt submission. \<open>hasClient\<close> is
  \<open>client?.session?.prompt\<close> being there.
\<close>

definition onIdle :: "(cu \<Rightarrow> cu) \<Rightarrow> (rat \<Rightarrow> jstring) \<Rightarrow> bool \<Rightarrow> jstring option \<Rightarrow> hostWorld \<Rightarrow> handlerStatus \<times> hostWorld" where
  "onIdle toUpper fractionText hasClient eventSession w =
     (case loadState w of
        None \<Rightarrow> (Returned, w)
      | Some state \<Rightarrow>
          if \<not> active state then (Returned, w)
          else
            (case (if truthy (lastOutput state)
                   then checkCompletion toUpper (stringOf (lastOutput state)) (completionPromise state)
                   else Some False) of
               None \<Rightarrow> (Raised, w)
             | Some True \<Rightarrow> (Returned, clearState w)
             | Some False \<Rightarrow>
                 if maxIterationsReached (maxIterations state) (of_int (iteration state))
                 then (Returned, clearState w)
                 else if \<not> truthy (orElse eventSession (sessionId state)) \<or> \<not> hasClient
                 then (Returned, w)
                 else
                   (let state' = state\<lparr>iteration := iteration state + 1\<rparr>;
                        w1 = saveState state' (w\<lparr>isProcessing := True\<rparr>)
                    in (AwaitingPrompt,
                        emit (SessionPrompt (stringOf (orElse eventSession (sessionId state)))
                                (buildIterationPrompt fractionText state')) w1))))"

text \<open>The \<open>message.updated\<close> block.\<close>

definition onMessageUpdated ::
  "(cu \<Rightarrow> cu) \<Rightarrow> jstring option \<Rightarrow> msgContent \<Rightarrow> hostWorld \<Rightarrow> handlerStatus \<times> hostWorld" where
  "onMessageUpdated toUpper role content w =
     (case loadState w of
        None \<Rightarrow> (Returned, w)
      | Some state \<Rightarrow>
          if active state \<and> role = Some (js ''assistant'') \<and> content \<noteq> NoText \<and> content \<noteq> Text []
             \<and> textContentOf content \<noteq> []
          then (case checkCompletion toUpper (textContentOf content) (completionPromise state) of
                  None \<Rightarrow> (Raised, w)
                | Some True \<Rightarrow> (Returned, saveState (state\<lparr>lastOutput := Some (textContentOf content)\<rparr>) w)
                | Some False \<Rightarrow> (Returned, w))
          else (Returned, w))"

text \<open>
  The event handler, run until it returns or suspends at the \<open>await\<close>. An idle event
  that finds \<open>isProcessing\<close> set skips the first block and falls through the second.
\<close>

definition onEvent :: "(cu \<Rightarrow> cu) \<Rightarrow> (rat \<Rightarrow> jstring) \<Rightarrow> bool \<Rightarrow> event \<Rightarrow> hostWorld \<Rightarrow> handlerStatus \<times> hostWorld" where
  "onEvent toUpper fractionText hasClient ev w =
     (case ev of
        SessionIdle eventSession \<Rightarrow>
          if \<not> isProcessing w then onIdle toUpper fractionText hasClient eventSession w else (Returned, w)
      | MessageUpdated role content \<Rightarrow> onMessageUpdated toUpper role content w
      | OtherEvent \<Rightarrow> (Returned, w))"

text \<open>
  The rest of a suspended handler, when the submission has settled either way: the
  \<open>finally\<close> block.
\<close>

definition promptSettled :: "hostWorld \<Rightarrow> hostWorld" where
  "promptSettled w = w\<lparr>isProcessing := False\<rparr>"

text \<open>The tools \<open>ralph_start\<close> and \<open>ralph_cancel\<close>, with the strings they return.\<close>

record startArgs =
  argPrompt :: jstring
  argMaxIterations :: "rat option"
  argCompletionPromise :: "jstring option"

definition startedState :: "startArgs \<Rightarrow> jstring \<Rightarrow> RalphState" where
  "startedState args now =
     \<lparr>active = True, iteration = 1,
      maxIterations = (case argMaxIterations args of None \<Rightarrow> 0 | Some n \<Rightarrow> n),
      completionPromise =
        (if truthy (argCompletionPromise args) then stringOf (argCompletionPromise args) else js ''COMPLETE''),
      prompt = argPrompt args, startedAt = now, sessionId = None, model = None, lastOutput = None\<rparr>"

definition loopEmoji :: jstring where
  "loopEmoji = [0xD83D, 0xDD04]"

definition stopEmoji :: jstring where
  "stopEmoji = [0xD83D, 0xDED1]"

definition alreadyActiveMessage :: "RalphState \<Rightarrow> jstring" where
  "alreadyActiveMessage existing =
     js ''Ralph loop already active at iteration '' @ numberToString (iteration existing) @
     js ''. Use ralph_cancel to stop it first.''"

definition startedMessage :: "(rat \<Rightarrow> jstring) \<Rightarrow> startArgs \<Rightarrow> RalphState \<Rightarrow> jstring" where
  "startedMessage fractionText args state =
     loopEmoji @ js '' Ralph loop started!\<newline>Iteration: 1\<newline>Max iterations: '' @
     (if maxIterations state > 0 then numberText fractionText (maxIterations state) else js ''unlimited'') @
     js ''\<newline>Completion promise: '' @ completionPromise state @
     js ''\<newline>\<newline>The loop will continue after each session idle until you output:\<newline><promise>'' @
     completionPromise state @ js ''</promise>\<newline>\<newline>Now working on: '' @
     take 100 (argPrompt args) @ (if length (argPrompt args) > 100 then js ''...'' else [])"

definition ralph_start :: "(rat \<Rightarrow> jstring) \<Rightarrow> startArgs \<Rightarrow> jstring \<Rightarrow> 'a world_scheme \<Rightarrow> jstring \<times> 'a world_scheme" where
  "ralph_start fractionText args now w =
     (case loadState w of
        None \<Rightarrow> (startedMessage fractionText args (startedState args now), saveState (startedState args now) w)
      | Some existing \<Rightarrow>
          if active existing then (alreadyActiveMessage existing, w)
          else (startedMessage fractionText args (startedState args now), saveState (startedState args now) w))"

definition ralph_cancel :: "'a world_scheme \<Rightarrow> jstring \<times> 'a world_scheme" where
  "ralph_cancel w =
     (case loadState w of
        None \<Rightarrow> (js ''No active Ralph loop to cancel'', w)
      | Some state \<Rightarrow>
          if \<not> active state then (js ''No active Ralph loop to cancel'', w)
          else (stopEmoji @ js '' Cancelled Ralph loop at iteration '' @ numberToString (iteration state),
                clearState w))"

section \<open>Vocabulary of the properties\<close>

text \<open>
  The terms of a string taken literally, and two strings of equal length whose code
  units agree after canonicalisation.
\<close>

definition literalTerms :: "jstring \<Rightarrow> rterm list" where
  "literalTerms s = map (\<lambda>c. Single (PatternChar c)) s"

definition sameIgnoringCase :: "(cu \<Rightarrow> cu) \<Rightarrow> jstring \<Rightarrow> jstring \<Rightarrow> bool" where
  "sameIgnoringCase toUpper xs ys = list_all2 (\<lambda>x y. canonicalize toUpper x = canonicalize toUpper y) xs ys"

text \<open>What the parser yields for the completion pattern, and a side condition of its lemmas.\<close>

definition promiseTerms :: "jstring \<Rightarrow> rterm list" where
  "promiseTerms promise =
     literalTerms (js ''<promise>'') @ Star ClassEscape_s # literalTerms promise @
     Star ClassEscape_s # literalTerms (js ''</promise>'')"

definition noQuantifierAhead :: "jstring \<Rightarrow> bool" where
  "noQuantifierAhead p = (case p of [] \<Rightarrow> True | q # r \<Rightarrow> q \<noteq> 0x2A)"

text \<open>
  The specification's reading of the completion matcher: an opening tag, white space,
  the marker, white space, a closing tag, somewhere in the text. White space is what
  \<open>\s\<close> matches. In \<open>promiseOccurs\<close> the tags are compared like the marker, ignoring
  case; in \<open>promiseOccursExactTags\<close> they are the exact strings.
\<close>

definition promiseOccurs :: "(cu \<Rightarrow> cu) \<Rightarrow> jstring \<Rightarrow> jstring \<Rightarrow> bool" where
  "promiseOccurs toUpper t m =
     (\<exists>pre otag w1 mid w2 ctag post.
        t = pre @ otag @ w1 @ mid @ w2 @ ctag @ post \<and>
        sameIgnoringCase toUpper (js ''<promise>'') otag \<and>
        list_all (atomMatches toUpper ClassEscape_s) w1 \<and>
        sameIgnoringCase toUpper m mid \<and>
        list_all (atomMatches toUpper ClassEscape_s) w2 \<and>
        sameIgnoringCase toUpper (js ''</promise>'') ctag)"

definition promiseOccursExactTags :: "(cu \<Rightarrow> cu) \<Rightarrow> jstring \<Rightarrow> jstring \<Rightarrow> bool" where
  "promiseOccursExactTags toUpper t m =
     (\<exists>pre w1 mid w2 post.
        t = pre @ js ''<promise>'' @ w1 @ mid @ w2 @ js ''</promise>'' @ post \<and>
        list_all (atomMatches toUpper ClassEscape_s) w1 \<and>
        sameIgnoringCase toUpper m mid \<and>
        list_all (atomMatches toUpper ClassEscape_s) w2)"

text \<open>The value of a string of decimal digits.\<close>

definition decimalValue :: "jstring \<Rightarrow> nat" where
  "decimalValue s = foldl (\<lambda>acc c. 10 * acc + (unat c - 48)) 0 s"

definition isDecimalDigit :: "cu \<Rightarrow> bool" where
  "isDecimalDigit c = (48 \<le> c \<and> c \<le> 57)"

text \<open>The arguments of the agent processes started, and the records written to the state file, oldest first.\<close>

fun spawnsOf :: "effect list \<Rightarrow> jstring list list" where
  "spawnsOf [] = []"
| "spawnsOf (Spawn args # es) = args # spawnsOf es"
| "spawnsOf (e # es) = spawnsOf es"

fun stateWrites :: "effect list \<Rightarrow> RalphState list" where
  "stateWrites [] = []"
| "stateWrites (WriteFileSync StatePath (StateJson s) # es) = s # stateWrites es"
| "stateWrites (e # es) = stateWrites es"

text \<open>
  The specification's atomic replacement of the state file: the data is written to
  another path, that path is renamed to the state path, and the state path itself is
  never written.
\<close>

definition writesTo :: "path \<Rightarrow> effect \<Rightarrow> bool" where
  "writesTo p e = (case e of WriteFileSync q d \<Rightarrow> q = p | _ \<Rightarrow> False)"

definition renamesOntoState :: "effect list \<Rightarrow> effect \<Rightarrow> bool" where
  "renamesOntoState effs e =
     (case e of
        RenameSync src dst \<Rightarrow> dst = StatePath \<and> src \<noteq> StatePath \<and> list_ex (writesTo src) effs
      | _ \<Rightarrow> False)"

definition replacesAtomically :: "effect list \<Rightarrow> bool" where
  "replacesAtomically effs = (list_ex (renamesOntoState effs) effs \<and> \<not> list_ex (writesTo StatePath) effs)"

text \<open>The effects of creating the state directory when it is missing.\<close>

definition mkdirEffects :: "'a world_scheme \<Rightarrow> effect list" where
  "mkdirEffects w = (if dirExists w then [] else [MkdirSync StateDir])"

text \<open>
  An iteration in which the agent exits with code 0, neither stream holds the
  placeholder sentinel and the output does not hold the completion marker.
\<close>

definition uneventful :: "(cu \<Rightarrow> cu) \<Rightarrow> options \<Rightarrow> agentRun \<times> gitOutcome \<Rightarrow> bool" where
  "uneventful toUpper opts env =
     (case fst env of
        SpawnFailed \<Rightarrow> False
      | Finished result stderr exitCode \<Rightarrow>
          exitCode = 0 \<and> \<not> detectPlaceholderPluginError stderr \<and> \<not> detectPlaceholderPluginError result
          \<and> checkCompletion toUpper result (optCompletionPromise opts) = Some False)"

text \<open>The effects of starting the agent, with the plugin configuration written first when asked for.\<close>

definition spawnEffects :: "(rat \<Rightarrow> jstring) \<Rightarrow> options \<Rightarrow> RalphState \<Rightarrow> 'a world_scheme \<Rightarrow> effect list" where
  "spawnEffects fractionText opts state w =
     (if optDisablePlugins opts
      then mkdirEffects w @ [WriteFileSync NoPluginsConfigPath PluginsConfigJson] else [])
     @ [Spawn (js ''opencode'' # cmdArgs fractionText opts state)]"

definition isGitEffect :: "effect \<Rightarrow> bool" where
  "isGitEffect e = (case e of GitStatus \<Rightarrow> True | GitAdd \<Rightarrow> True | GitCommit n \<Rightarrow> True | _ \<Rightarrow> False)"

text \<open>
  What happens to a loop of the in-host driver once it exists: events are handled,
  suspended handlers are resumed, and the loop may be cancelled.
\<close>

datatype hostOp = HostEvent bool event | PromptSettles | Cancel

fun hostStep :: "(cu \<Rightarrow> cu) \<Rightarrow> (rat \<Rightarrow> jstring) \<Rightarrow> hostOp \<Rightarrow> hostWorld \<Rightarrow> hostWorld" where
  "hostStep toUpper fractionText (HostEvent hasClient ev) h = snd (onEvent toUpper fractionText hasClient ev h)"
| "hostStep toUpper fractionText PromptSettles h = promptSettled h"
| "hostStep toUpper fractionText Cancel h = snd (ralph_cancel h)"

fun hostRun :: "(cu \<Rightarrow> cu) \<Rightarrow> (rat \<Rightarrow> jstring) \<Rightarrow> hostOp list \<Rightarrow> hostWorld \<Rightarrow> hostWorld" where
  "hostRun toUpper fractionText [] h = h"
| "hostRun toUpper fractionText (op # ops) h = hostRun toUpper fractionText ops (hostStep toUpper fractionText op h)"

text \<open>A record that differs from another at most in \<open>iteration\<close> and \<open>lastOutput\<close>.\<close>

definition sameTask :: "RalphState \<Rightarrow> RalphState \<Rightarrow> bool" where
  "sameTask s s' = (s'\<lparr>iteration := iteration s, lastOutput := lastOutput s\<rparr> = s)"

text \<open>The state file is gone or holds a record of the same task.\<close>

definition keepsTask :: "RalphState \<Rightarrow> 'a world_scheme \<Rightarrow> bool" where
  "keepsTask s w =
     (case stateFile w of
        None \<Rightarrow> True
      | Some Unparsable \<Rightarrow> False
      | Some (Json s') \<Rightarrow> sameTask s s')"

section \<open>The pattern always compiles, and what it matches\<close>


lemma parseTerms_Nil: "parseTerms [] = Some []"
  by (simp add: parseTerms.simps)

lemma star_escaped: "(0x2A::cu) \<in> set escapedChars"
  by (simp add: escapedChars_def js_def)

lemma escaped_syntax: "c \<in> set escapedChars \<longleftrightarrow> isSyntaxCharacter c"
  by (auto simp: escapedChars_def isSyntaxCharacter_def syntaxChars_def js_def)

lemma bslash_syntax: "isSyntaxCharacter bslash" "bslash \<noteq> 0x2A" "bslash \<noteq> 0x73" "\<not> isSyntaxCharacter 0x73"
  "isSyntaxCharacter 0x2A"
  by (simp_all add: isSyntaxCharacter_def syntaxChars_def js_def bslash_def)

lemma parseQuantifier_none: "noQuantifierAhead p \<Longrightarrow> parseQuantifier p = (False, p)"
  by (auto simp: noQuantifierAhead_def parseQuantifier_def split: list.splits)

lemma noQuantifierAhead_escape:
  "noQuantifierAhead rest \<Longrightarrow> noQuantifierAhead (escapeRegex m @ rest)"
  by (cases m) (auto simp: noQuantifierAhead_def escapeRegex_def bslash_syntax star_escaped split: list.splits)

lemma escapeRegex_Cons:
  "escapeRegex (c # m) = (if isSyntaxCharacter c then [bslash, c] else [c]) @ escapeRegex m"
  by (simp add: escapeRegex_def escaped_syntax)

lemma parseTerms_literal_char:
  assumes "noQuantifierAhead rest"
  shows "parseTerms ((if isSyntaxCharacter c then [bslash, c] else [c]) @ rest) =
         map_option (Cons (Single (PatternChar c))) (parseTerms rest)"
proof (cases "isSyntaxCharacter c")
  case True
  then have "c \<noteq> 0x73" using bslash_syntax(4) by auto
  with True assms show ?thesis
    by (subst parseTerms.simps) (simp add: parseAtom_def parseQuantifier_none)
next
  case False
  then have "c \<noteq> bslash" using bslash_syntax(1) by auto
  with False assms show ?thesis
    by (subst parseTerms.simps) (simp add: parseAtom_def parseQuantifier_none)
qed

lemma parseTerms_escapeRegex:
  "noQuantifierAhead rest \<Longrightarrow>
   parseTerms (escapeRegex m @ rest) = map_option ((@) (literalTerms m)) (parseTerms rest)"
proof (induction m)
  case Nil
  then show ?case by (simp add: escapeRegex_def literalTerms_def option.map_ident)
next
  case (Cons c m)
  have "noQuantifierAhead (escapeRegex m @ rest)"
    using Cons.prems by (rule noQuantifierAhead_escape)
  then have "parseTerms (escapeRegex (c # m) @ rest) =
      map_option (Cons (Single (PatternChar c))) (parseTerms (escapeRegex m @ rest))"
    unfolding escapeRegex_Cons append_assoc by (rule parseTerms_literal_char)
  then show ?case
    using Cons by (simp add: literalTerms_def option.map_comp comp_def)
qed

lemma parseTerms_space_star:
  "parseTerms (bslash # 0x73 # 0x2A # rest) = map_option (Cons (Star ClassEscape_s)) (parseTerms rest)"
  by (subst parseTerms.simps) (simp add: parseAtom_def parseQuantifier_def)

lemma parseTerms_plain:
  "\<forall>c \<in> set s. \<not> isSyntaxCharacter c \<Longrightarrow> noQuantifierAhead rest \<Longrightarrow>
   parseTerms (s @ rest) = map_option ((@) (literalTerms s)) (parseTerms rest)"
proof (induction s)
  case Nil
  then show ?case by (simp add: literalTerms_def option.map_ident)
next
  case (Cons c s)
  have nq: "noQuantifierAhead (s @ rest)"
    using Cons.prems by (cases s) (auto simp: noQuantifierAhead_def bslash_syntax)
  have "parseTerms ((if isSyntaxCharacter c then [bslash, c] else [c]) @ (s @ rest)) =
         map_option (Cons (Single (PatternChar c))) (parseTerms (s @ rest))"
    using nq by (rule parseTerms_literal_char)
  then show ?case using Cons by (simp add: literalTerms_def option.map_comp comp_def)
qed

lemma openTag_plain: "\<forall>c \<in> set (js ''<promise>''). \<not> isSyntaxCharacter c"
  by (simp add: js_def isSyntaxCharacter_def syntaxChars_def bslash_def)

lemma closeTag_plain: "\<forall>c \<in> set (js ''</promise>''). \<not> isSyntaxCharacter c"
  by (simp add: js_def isSyntaxCharacter_def syntaxChars_def bslash_def)

lemma parseTerms_promisePattern: "parseTerms (promisePattern promise) = Some (promiseTerms promise)"
proof -
  have close: "parseTerms (js ''</promise>'') = Some (literalTerms (js ''</promise>''))"
    using parseTerms_plain [OF closeTag_plain, of "[]"]
    by (simp add: noQuantifierAhead_def parseTerms_Nil)
  have tail: "parseTerms (bslash # 0x73 # 0x2A # js ''</promise>'') =
      Some (Star ClassEscape_s # literalTerms (js ''</promise>''))"
    by (simp add: parseTerms_space_star close)
  have nq: "noQuantifierAhead (bslash # 0x73 # 0x2A # js ''</promise>'')"
    by (simp add: noQuantifierAhead_def bslash_syntax)
  have mid: "parseTerms (escapeRegex promise @ bslash # 0x73 # 0x2A # js ''</promise>'') =
      Some (literalTerms promise @ Star ClassEscape_s # literalTerms (js ''</promise>''))"
    by (simp add: parseTerms_escapeRegex [OF nq] tail)
  have mid2: "parseTerms (bslash # 0x73 # 0x2A # escapeRegex promise @ bslash # 0x73 # 0x2A # js ''</promise>'') =
      Some (Star ClassEscape_s # literalTerms promise @ Star ClassEscape_s # literalTerms (js ''</promise>''))"
    by (simp add: parseTerms_space_star mid)
  have nq2: "noQuantifierAhead (bslash # 0x73 # 0x2A # escapeRegex promise @ bslash # 0x73 # 0x2A # js ''</promise>'')"
    by (simp add: noQuantifierAhead_def bslash_syntax)
  have split: "promisePattern promise =
     js ''<promise>'' @ (bslash # 0x73 # 0x2A # escapeRegex promise @ bslash # 0x73 # 0x2A # js ''</promise>'')"
    by (simp add: promisePattern_def js_def)
  show ?thesis
    unfolding split promiseTerms_def
    by (simp only: parseTerms_plain [OF openTag_plain nq2] mid2 option.map append.simps)
qed

lemma matchHere_literal:
  "matchHere up (literalTerms xs @ ts) s \<longleftrightarrow>
     (\<exists>a b. s = a @ b \<and> sameIgnoringCase up xs a \<and> matchHere up ts b)"
proof (induction xs arbitrary: s)
  case Nil
  then show ?case by (simp add: literalTerms_def sameIgnoringCase_def)
next
  case (Cons x xs)
  show ?case
  proof (cases s)
    case Nil
    then show ?thesis by (simp add: literalTerms_def sameIgnoringCase_def)
  next
    case (Cons c cs)
    have "matchHere up (literalTerms (x # xs) @ ts) (c # cs) \<longleftrightarrow>
        canonicalize up x = canonicalize up c \<and> matchHere up (literalTerms xs @ ts) cs"
      by (simp add: literalTerms_def)
    also have "\<dots> \<longleftrightarrow> canonicalize up x = canonicalize up c \<and>
        (\<exists>a b. cs = a @ b \<and> sameIgnoringCase up xs a \<and> matchHere up ts b)"
      using Cons.IH by simp
    also have "\<dots> \<longleftrightarrow> (\<exists>a b. c # cs = a @ b \<and> sameIgnoringCase up (x # xs) a \<and> matchHere up ts b)"
      by (auto simp: sameIgnoringCase_def list_all2_Cons1 Cons_eq_append_conv)
    finally show ?thesis using Cons by simp
  qed
qed

lemma matchHere_star:
  "matchHere up (Star a # ts) s \<longleftrightarrow>
     (\<exists>w r. s = w @ r \<and> list_all (atomMatches up a) w \<and> matchHere up ts r)"
proof (induction s)
  case Nil
  then show ?case by simp
next
  case (Cons c cs)
  show ?case
  proof
    assume "matchHere up (Star a # ts) (c # cs)"
    then consider "atomMatches up a c" "matchHere up (Star a # ts) cs" | "matchHere up ts (c # cs)"
      by auto
    then show "\<exists>w r. c # cs = w @ r \<and> list_all (atomMatches up a) w \<and> matchHere up ts r"
    proof cases
      case 1
      then obtain w r where "cs = w @ r" "list_all (atomMatches up a) w" "matchHere up ts r"
        using Cons.IH by auto
      with 1 have "c # cs = (c # w) @ r \<and> list_all (atomMatches up a) (c # w) \<and> matchHere up ts r"
        by simp
      then show ?thesis by blast
    next
      case 2
      then have "c # cs = [] @ (c # cs) \<and> list_all (atomMatches up a) [] \<and> matchHere up ts (c # cs)"
        by simp
      then show ?thesis by blast
    qed
  next
    assume "\<exists>w r. c # cs = w @ r \<and> list_all (atomMatches up a) w \<and> matchHere up ts r"
    then obtain w r where wr: "c # cs = w @ r" "list_all (atomMatches up a) w" "matchHere up ts r"
      by auto
    show "matchHere up (Star a # ts) (c # cs)"
    proof (cases w)
      case Nil
      with wr have "r = c # cs" by simp
      with wr(3) show ?thesis by simp
    next
      case (Cons d w')
      with wr have "d = c" "cs = w' @ r" "atomMatches up a c" "list_all (atomMatches up a) w'"
        by auto
      with wr(3) Cons.IH show ?thesis by auto
    qed
  qed
qed

lemma regexTest_iff: "regexTest up ts s \<longleftrightarrow> (\<exists>pre r. s = pre @ r \<and> matchHere up ts r)"
proof (induction s)
  case Nil
  then show ?case by simp
next
  case (Cons c cs)
  have "(\<exists>pre r. c # cs = pre @ r \<and> matchHere up ts r) \<longleftrightarrow>
        matchHere up ts (c # cs) \<or> (\<exists>pre r. cs = pre @ r \<and> matchHere up ts r)"
    by (auto simp: Cons_eq_append_conv)
  then show ?case using Cons by simp
qed


lemma sameIgnoringCase_refl: "sameIgnoringCase up xs xs"
  by (simp add: sameIgnoringCase_def list_all2_same)

lemma matchHere_promiseTerms:
  "matchHere up (promiseTerms m) r \<longleftrightarrow>
     (\<exists>otag w1 mid w2 ctag post.
        r = otag @ w1 @ mid @ w2 @ ctag @ post \<and>
        sameIgnoringCase up (js ''<promise>'') otag \<and>
        list_all (atomMatches up ClassEscape_s) w1 \<and>
        sameIgnoringCase up m mid \<and>
        list_all (atomMatches up ClassEscape_s) w2 \<and>
        sameIgnoringCase up (js ''</promise>'') ctag)"
proof -
  have close: "matchHere up (literalTerms (js ''</promise>'')) r5 \<longleftrightarrow>
      (\<exists>ctag post. r5 = ctag @ post \<and> sameIgnoringCase up (js ''</promise>'') ctag)" for r5
    using matchHere_literal [of up "js ''</promise>''" "[]" r5] by simp
  have s2: "matchHere up (Star ClassEscape_s # literalTerms (js ''</promise>'')) r4 \<longleftrightarrow>
      (\<exists>w2 ctag post. r4 = w2 @ ctag @ post \<and> list_all (atomMatches up ClassEscape_s) w2 \<and>
         sameIgnoringCase up (js ''</promise>'') ctag)" for r4
    unfolding matchHere_star close by blast
  have mid: "matchHere up (literalTerms m @ Star ClassEscape_s # literalTerms (js ''</promise>'')) r3 \<longleftrightarrow>
      (\<exists>mid w2 ctag post. r3 = mid @ w2 @ ctag @ post \<and> sameIgnoringCase up m mid \<and>
         list_all (atomMatches up ClassEscape_s) w2 \<and> sameIgnoringCase up (js ''</promise>'') ctag)" for r3
    unfolding matchHere_literal s2 by blast
  have s1: "matchHere up (Star ClassEscape_s # literalTerms m @ Star ClassEscape_s # literalTerms (js ''</promise>'')) r2 \<longleftrightarrow>
      (\<exists>w1 mid w2 ctag post. r2 = w1 @ mid @ w2 @ ctag @ post \<and> list_all (atomMatches up ClassEscape_s) w1 \<and>
         sameIgnoringCase up m mid \<and>
         list_all (atomMatches up ClassEscape_s) w2 \<and> sameIgnoringCase up (js ''</promise>'') ctag)" for r2
    unfolding matchHere_star mid by blast
  show ?thesis
    unfolding promiseTerms_def matchHere_literal s1 by blast
qed

lemma checkCompletion_promiseOccurs:
  "checkCompletion up t m = Some (promiseOccurs up t m)"
proof -
  have "regexTest up (promiseTerms m) t \<longleftrightarrow> promiseOccurs up t m"
    unfolding regexTest_iff matchHere_promiseTerms promiseOccurs_def by blast
  then show ?thesis
    by (simp add: checkCompletion_def parseTerms_promisePattern)
qed

lemma checkCompletion_echo:
  "checkCompletion up (pre @ js ''<promise>'' @ m @ js ''</promise>'' @ post) m = Some True"
proof -
  have "promiseOccurs up (pre @ js ''<promise>'' @ m @ js ''</promise>'' @ post) m"
    unfolding promiseOccurs_def
    apply (rule exI [of _ pre])
    apply (rule exI [of _ "js ''<promise>''"])
    apply (rule exI [of _ "[]"])
    apply (rule exI [of _ m])
    apply (rule exI [of _ "[]"])
    apply (rule exI [of _ "js ''</promise>''"])
    apply (rule exI [of _ post])
    apply (simp add: sameIgnoringCase_refl)
    done
  then show ?thesis by (simp add: checkCompletion_promiseOccurs)
qed

text \<open>On ASCII the canonical form does not depend on the runtime's table.\<close>

lemma canonicalize_ascii:
  "ch < 128 \<Longrightarrow> canonicalize up ch = (if 97 \<le> ch \<and> ch \<le> 122 then ch - 32 else ch)"
  by (simp add: canonicalize_def)

lemma canonicalize_ascii_iff: "canonicalize up ch < 128 \<longleftrightarrow> ch < 128"
  unfolding canonicalize_def Let_def
  by (auto simp: word_less_nat_alt word_le_nat_alt unat_sub)

lemma atomMatches_space_ascii:
  assumes "ch < 128"
  shows "atomMatches up ClassEscape_s ch \<longleftrightarrow> ch \<in> {0x09, 0x0A, 0x0B, 0x0C, 0x0D, 0x20}"
proof -
  have hi: "\<not> a < 128 \<Longrightarrow> canonicalize up a \<noteq> canonicalize up ch" for a
    using canonicalize_ascii_iff [of up a] canonicalize_ascii_iff [of up ch] assms by auto
  have lo: "a \<in> {0x09, 0x0A, 0x0B, 0x0C, 0x0D, 0x20} \<Longrightarrow>
      canonicalize up a = canonicalize up ch \<longleftrightarrow> a = ch" for a :: cu
    using assms
    by (auto simp: canonicalize_ascii word_less_nat_alt word_le_nat_alt unat_sub)
  show ?thesis
    unfolding atomMatches.simps whiteSpaceChars_def list_ex_Cons_iff list_ex_Nil_iff
    by (simp add: hi lo)
qed

lemma promiseOccurs_marker_chars:
  assumes "promiseOccurs up t m" "x \<in> set m"
  shows "\<exists>y \<in> set t. canonicalize up x = canonicalize up y"
proof -
  from assms(1) obtain pre otag w1 mid w2 ctag post where
    t: "t = pre @ otag @ w1 @ mid @ w2 @ ctag @ post" and mid: "sameIgnoringCase up m mid"
    unfolding promiseOccurs_def by blast
  from mid assms(2) obtain y where "y \<in> set mid" "canonicalize up x = canonicalize up y"
    unfolding sameIgnoringCase_def in_set_conv_nth list_all2_conv_all_nth by metis
  with t show ?thesis by auto
qed

lemma promiseOccurs_open_bracket:
  assumes "promiseOccurs up t m"
  shows "\<exists>y \<in> set t. canonicalize up 0x3C = canonicalize up y"
proof -
  from assms obtain pre otag w1 mid w2 ctag post where
    t: "t = pre @ otag @ w1 @ mid @ w2 @ ctag @ post" and o: "sameIgnoringCase up (js ''<promise>'') otag"
    unfolding promiseOccurs_def by blast
  from o obtain y ys where "otag = y # ys" "canonicalize up 0x3C = canonicalize up y"
    unfolding sameIgnoringCase_def by (auto simp: js_def list_all2_Cons1)
  with t show ?thesis by auto
qed

lemma checkCompletion_no_bracket:
  assumes "\<forall>y \<in> set t. y < 128 \<and> y \<noteq> 0x3C"
  shows "checkCompletion up t m = Some False"
proof -
  have "\<not> promiseOccurs up t m"
  proof
    assume "promiseOccurs up t m"
    then obtain y where y: "y \<in> set t" "canonicalize up 0x3C = canonicalize up y"
      using promiseOccurs_open_bracket by blast
    with assms have "y < 128" "y \<noteq> 0x3C" by auto
    with y(2) show False
      by (auto simp: canonicalize_ascii word_less_nat_alt word_le_nat_alt unat_sub split: if_splits)
  qed
  then show ?thesis by (simp add: checkCompletion_promiseOccurs)
qed

section \<open>Rendering numbers and prompts\<close>

lemma digit_unat: "d < 10 \<Longrightarrow> unat (of_nat (48 + d) :: cu) = 48 + d"
  by (rule of_nat_inverse [OF refl]) simp

lemma digit_isDecimal: "d < 10 \<Longrightarrow> isDecimalDigit (of_nat (48 + d))"
  unfolding isDecimalDigit_def word_le_nat_alt digit_unat by simp

lemma digitsOf_decimal:
  "n < fuel \<Longrightarrow> decimalValue (digitsOf fuel n) = n \<and> list_all isDecimalDigit (digitsOf fuel n)
     \<and> digitsOf fuel n \<noteq> []"
proof (induction fuel arbitrary: n)
  case 0
  then show ?case by simp
next
  case (Suc fuel)
  show ?case
  proof (cases "n < 10")
    case True
    then show ?thesis
      using digit_unat [of n] digit_isDecimal [of n] by (simp add: decimalValue_def del: of_nat_add)
  next
    case False
    then have "n div 10 < fuel" using Suc.prems by simp
    from Suc.IH [OF this] have
      ih: "decimalValue (digitsOf fuel (n div 10)) = n div 10"
          "list_all isDecimalDigit (digitsOf fuel (n div 10))"
      by simp_all
    have d: "n mod 10 < 10" by simp
    show ?thesis
      using False ih digit_unat [OF d] digit_isDecimal [OF d]
      by (simp add: decimalValue_def del: of_nat_add)
  qed
qed

lemma natToString_decimal:
  "decimalValue (natToString n) = n \<and> list_all isDecimalDigit (natToString n) \<and> natToString n \<noteq> []"
  unfolding natToString_def by (rule digitsOf_decimal) simp

lemma trim_strip:
  assumes "\<not> isWhiteSpace a" "\<not> isWhiteSpace b"
  shows "trim (0x0A # a # xs @ [b, 0x0A]) = a # xs @ [b]"
proof -
  have ws: "isWhiteSpace 0x0A" by (simp add: isWhiteSpace_def whiteSpaceChars_def)
  have "dropWhile isWhiteSpace (0x0A # a # xs @ [b, 0x0A]) = a # xs @ [b, 0x0A]"
    using ws assms by simp
  moreover have "rev (a # xs @ [b, 0x0A]) = 0x0A # b # rev xs @ [a]" by simp
  moreover have "dropWhile isWhiteSpace (0x0A # b # rev xs @ [a]) = b # rev xs @ [a]"
    using ws assms by simp
  ultimately show ?thesis by (simp add: trim_def)
qed

lemma buildPrompt_trimmed:
  "buildPrompt fractionText state =
     js ''# Ralph Wiggum Loop - Iteration '' @ numberToString (iteration state) @
     introText @ prompt state @ instructionsText @
     js ''<promise>'' @ completionPromise state @ js ''</promise>'' @
     rulesHeadText @
     js ''<promise>'' @ completionPromise state @ js ''</promise>'' @
     rulesText @ numberToString (iteration state) @ iterationSuffix fractionText state @
     js ''\<newline>\<newline>Now, work on the task. Good luck!''"
proof -
  define middle where "middle = js '' Ralph Wiggum Loop - Iteration '' @ numberToString (iteration state) @
     introText @ prompt state @ instructionsText @
     js ''<promise>'' @ completionPromise state @ js ''</promise>'' @
     rulesHeadText @
     js ''<promise>'' @ completionPromise state @ js ''</promise>'' @
     rulesText @ numberToString (iteration state) @ iterationSuffix fractionText state @
     js ''\<newline>\<newline>Now, work on the task. Good luck''"
  have h: "js ''\<newline># Ralph Wiggum Loop - Iteration '' = 0x0A # 0x23 # js '' Ralph Wiggum Loop - Iteration ''"
    by (simp add: js_def)
  have h': "js ''# Ralph Wiggum Loop - Iteration '' = 0x23 # js '' Ralph Wiggum Loop - Iteration ''"
    by (simp add: js_def)
  have t: "js ''\<newline>\<newline>Now, work on the task. Good luck!\<newline>'' =
      js ''\<newline>\<newline>Now, work on the task. Good luck'' @ [0x21, 0x0A]"
    by (simp add: js_def)
  have t': "js ''\<newline>\<newline>Now, work on the task. Good luck!'' =
      js ''\<newline>\<newline>Now, work on the task. Good luck'' @ [0x21]"
    by (simp add: js_def)
  have nw: "\<not> isWhiteSpace 0x23" "\<not> isWhiteSpace 0x21"
    by (simp_all add: isWhiteSpace_def whiteSpaceChars_def)
  have "buildPrompt fractionText state = trim (0x0A # 0x23 # middle @ [0x21, 0x0A])"
    unfolding buildPrompt_def h t middle_def by simp
  also have "\<dots> = 0x23 # middle @ [0x21]"
    using nw by (rule trim_strip)
  also have "\<dots> = js ''# Ralph Wiggum Loop - Iteration '' @ numberToString (iteration state) @
     introText @ prompt state @ instructionsText @
     js ''<promise>'' @ completionPromise state @ js ''</promise>'' @
     rulesHeadText @
     js ''<promise>'' @ completionPromise state @ js ''</promise>'' @
     rulesText @ numberToString (iteration state) @ iterationSuffix fractionText state @
     js ''\<newline>\<newline>Now, work on the task. Good luck!''"
    unfolding h' t' middle_def by simp
  finally show ?thesis .
qed

lemma buildPrompt_promise_tag:
  "\<exists>pre post. buildPrompt fractionText state =
      pre @ js ''<promise>'' @ completionPromise state @ js ''</promise>'' @ post"
  unfolding buildPrompt_trimmed
  apply (rule exI [of _ "js ''# Ralph Wiggum Loop - Iteration '' @ numberToString (iteration state) @
     introText @ prompt state @ instructionsText"])
  apply (rule exI [of _ "rulesHeadText @
     js ''<promise>'' @ completionPromise state @ js ''</promise>'' @
     rulesText @ numberToString (iteration state) @ iterationSuffix fractionText state @
     js ''\<newline>\<newline>Now, work on the task. Good luck!''"])
  apply simp
  done

lemma buildIterationPrompt_promise_tag:
  "\<exists>pre post. buildIterationPrompt fractionText state =
      pre @ js ''<promise>'' @ completionPromise state @ js ''</promise>'' @ post"
  unfolding buildIterationPrompt_def
  apply (rule exI [of _ "js ''# Ralph Wiggum Loop - Iteration '' @ numberToString (iteration state) @
     hostIntroText @ prompt state @ instructionsText"])
  apply (rule exI [of _ "rulesHeadText @
     js ''<promise>'' @ completionPromise state @ js ''</promise>'' @
     hostRulesText @ numberToString (iteration state) @ iterationSuffix fractionText state @
     js ''\<newline>\<newline>Now, continue working on the task.''"])
  apply simp
  done

section \<open>The completion matcher\<close>

text \<open>
  C1, as amended. For every marker \<open>m\<close> and text \<open>t\<close> the constructor does not raise and
  \<open>checkCompletion\<close> answers true exactly when \<open>t\<close> contains an opening tag, optional
  white space, the marker, optional white space and a closing tag, where the marker
  and also both tags are compared ignoring case, code unit by code unit, and nothing
  in the marker acts as a pattern: the marker \<open>a.b*c\<close> is found in
  \<open><promise>a.b*c</promise>\<close> and not in \<open><promise>aXbbc</promise>\<close>.
\<close>

theorem checkCompletion_literal_marker:
  "checkCompletion toUpper t m = Some (promiseOccurs toUpper t m)
   \<and> checkCompletion toUpper (js ''<promise>a.b*c</promise>'') (js ''a.b*c'') = Some True
   \<and> checkCompletion toUpper (js ''<promise>aXbbc</promise>'') (js ''a.b*c'') = Some False"
proof -
  have literal: "checkCompletion toUpper (js ''<promise>a.b*c</promise>'') (js ''a.b*c'') = Some True"
    using checkCompletion_echo [of toUpper "[]" "js ''a.b*c''" "[]"] by (simp add: js_def)
  have "\<not> promiseOccurs toUpper (js ''<promise>aXbbc</promise>'') (js ''a.b*c'')"
  proof
    assume "promiseOccurs toUpper (js ''<promise>aXbbc</promise>'') (js ''a.b*c'')"
    then have "\<exists>y \<in> set (js ''<promise>aXbbc</promise>''). canonicalize toUpper 0x2E = canonicalize toUpper y"
      by (rule promiseOccurs_marker_chars) (simp add: js_def)
    then show False by (simp add: js_def canonicalize_ascii)
  qed
  then have pattern: "checkCompletion toUpper (js ''<promise>aXbbc</promise>'') (js ''a.b*c'') = Some False"
    by (simp add: checkCompletion_promiseOccurs)
  show ?thesis
    using checkCompletion_promiseOccurs [of toUpper t m] literal pattern by simp
qed

theorem checkCompletion_literal_marker_witness:
  "checkCompletion id (js ''ok <Promise> c++ </PROMISE>'') (js ''C++'') = Some True"
proof -
  have "promiseOccurs id (js ''ok <Promise> c++ </PROMISE>'') (js ''C++'')"
    unfolding promiseOccurs_def
    apply (rule exI [of _ "js ''ok ''"])
    apply (rule exI [of _ "js ''<Promise>''"])
    apply (rule exI [of _ "js '' ''"])
    apply (rule exI [of _ "js ''c++''"])
    apply (rule exI [of _ "js '' ''"])
    apply (rule exI [of _ "js ''</PROMISE>''"])
    apply (rule exI [of _ "[]"])
    apply (simp add: sameIgnoringCase_def js_def canonicalize_ascii atomMatches_space_ascii
        del: atomMatches.simps(2))
    done
  then show ?thesis
    using checkCompletion_literal_marker [of id "js ''ok <Promise> c++ </PROMISE>''" "js ''C++''"]
    by simp
qed

text \<open>
  C1 as stated asks for the exact substrings \<open><promise>\<close> and \<open></promise>\<close>. The flag
  \<open>i\<close> covers the whole pattern: upper-case tags are matched too.
\<close>

theorem checkCompletion_exact_tags_counterexample:
  "checkCompletion id (js ''<PROMISE>x</PROMISE>'') (js ''x'') = Some True
   \<and> \<not> promiseOccursExactTags id (js ''<PROMISE>x</PROMISE>'') (js ''x'')"
proof -
  have "promiseOccurs id (js ''<PROMISE>x</PROMISE>'') (js ''x'')"
    unfolding promiseOccurs_def
    apply (rule exI [of _ "[]"])
    apply (rule exI [of _ "js ''<PROMISE>''"])
    apply (rule exI [of _ "[]"])
    apply (rule exI [of _ "js ''x''"])
    apply (rule exI [of _ "[]"])
    apply (rule exI [of _ "js ''</PROMISE>''"])
    apply (rule exI [of _ "[]"])
    apply (simp add: sameIgnoringCase_def js_def canonicalize_ascii)
    done
  then have a: "checkCompletion id (js ''<PROMISE>x</PROMISE>'') (js ''x'') = Some True"
    by (simp add: checkCompletion_promiseOccurs)
  have b: "\<not> promiseOccursExactTags id (js ''<PROMISE>x</PROMISE>'') (js ''x'')"
  proof
    assume "promiseOccursExactTags id (js ''<PROMISE>x</PROMISE>'') (js ''x'')"
    then obtain pre rest where "js ''<PROMISE>x</PROMISE>'' = pre @ js ''<promise>'' @ rest"
      unfolding promiseOccursExactTags_def by blast
    then have "set (js ''<PROMISE>x</PROMISE>'') = set pre \<union> set (js ''<promise>'') \<union> set rest"
      by (simp add: Un_assoc)
    then have "0x70 \<in> set (js ''<PROMISE>x</PROMISE>'')"
      by (simp add: js_def)
    then show False by (simp add: js_def)
  qed
  show ?thesis using a b by simp
qed

section \<open>The prompt builders\<close>

text \<open>
  C7. For every state, the prompt of either builder contains the completion marker
  between \<open><promise>\<close> and \<open></promise>\<close>, the tags of the completion pattern, and
  contains the iteration number as the template renders it; for a number that is not
  negative the rendering is its decimal digits. The builders are functions of the
  state alone.
\<close>

theorem prompt_embeds_marker_and_iteration:
  "sublist (js ''<promise>'' @ completionPromise state @ js ''</promise>'') (buildPrompt fractionText state)
   \<and> sublist (numberToString (iteration state)) (buildPrompt fractionText state)
   \<and> sublist (js ''<promise>'' @ completionPromise state @ js ''</promise>'') (buildIterationPrompt fractionText state)
   \<and> sublist (numberToString (iteration state)) (buildIterationPrompt fractionText state)
   \<and> decimalValue (numberToString (int n)) = n
   \<and> list_all isDecimalDigit (numberToString (int n))"
proof -
  obtain pre post where "buildPrompt fractionText state =
      pre @ js ''<promise>'' @ completionPromise state @ js ''</promise>'' @ post"
    using buildPrompt_promise_tag by blast
  then have a: "sublist (js ''<promise>'' @ completionPromise state @ js ''</promise>'') (buildPrompt fractionText state)"
    unfolding sublist_def by (metis append.assoc)
  have b: "sublist (numberToString (iteration state)) (buildPrompt fractionText state)"
    unfolding sublist_def buildPrompt_trimmed by blast
  obtain pre' post' where "buildIterationPrompt fractionText state =
      pre' @ js ''<promise>'' @ completionPromise state @ js ''</promise>'' @ post'"
    using buildIterationPrompt_promise_tag by blast
  then have c: "sublist (js ''<promise>'' @ completionPromise state @ js ''</promise>'') (buildIterationPrompt fractionText state)"
    unfolding sublist_def by (metis append.assoc)
  have d: "sublist (numberToString (iteration state)) (buildIterationPrompt fractionText state)"
    unfolding sublist_def buildIterationPrompt_def by blast
  have e: "decimalValue (numberToString (int n)) = n" "list_all isDecimalDigit (numberToString (int n))"
    using natToString_decimal [of n] by (simp_all add: numberToString_def)
  show ?thesis using a b c d e by simp
qed

theorem prompt_embeds_marker_and_iteration_witness:
  "sublist (js ''<promise>DONE</promise>'')
     (buildPrompt (\<lambda>x. js ''0.5'') \<lparr>active = True, iteration = 7, maxIterations = 0, completionPromise = js ''DONE'',
        prompt = js ''fix it'', startedAt = [], sessionId = None, model = None, lastOutput = None\<rparr>)
   \<and> sublist (js ''7'')
     (buildIterationPrompt (\<lambda>x. js ''0.5'') \<lparr>active = True, iteration = 7, maxIterations = 0, completionPromise = js ''DONE'',
        prompt = js ''fix it'', startedAt = [], sessionId = None, model = None, lastOutput = None\<rparr>)
   \<and> numberToString 42 = js ''42''"
proof -
  have n7: "numberToString 7 = js ''7''"
    by code_simp
  have n42: "numberToString 42 = js ''42''"
    by code_simp
  have tag: "js ''<promise>'' @ js ''DONE'' @ js ''</promise>'' = js ''<promise>DONE</promise>''"
    by (simp add: js_def)
  show ?thesis
    using prompt_embeds_marker_and_iteration [of "\<lparr>active = True, iteration = 7, maxIterations = 0,
        completionPromise = js ''DONE'', prompt = js ''fix it'', startedAt = [], sessionId = None,
        model = None, lastOutput = None\<rparr>" "(\<lambda>x. js ''0.5'')" 42] n7 n42 tag
    by simp
qed

text \<open>
  C9. For every state, the prompt of either builder satisfies the completion matcher
  for that state's marker, and so does any text that contains the prompt or only its
  tag line: an output of the agent that echoes the prompt counts as completion.
\<close>

theorem rendered_prompt_satisfies_matcher:
  "checkCompletion toUpper (buildPrompt fractionText state) (completionPromise state) = Some True
   \<and> checkCompletion toUpper (buildIterationPrompt fractionText state) (completionPromise state) = Some True
   \<and> checkCompletion toUpper (before @ buildPrompt fractionText state @ after) (completionPromise state) = Some True
   \<and> checkCompletion toUpper (before @ buildIterationPrompt fractionText state @ after) (completionPromise state) = Some True
   \<and> checkCompletion toUpper
        (before @ js ''<promise>'' @ completionPromise state @ js ''</promise>'' @ after)
        (completionPromise state) = Some True"
proof -
  obtain pre post where p: "buildPrompt fractionText state =
      pre @ js ''<promise>'' @ completionPromise state @ js ''</promise>'' @ post"
    using buildPrompt_promise_tag by blast
  obtain pre' post' where p': "buildIterationPrompt fractionText state =
      pre' @ js ''<promise>'' @ completionPromise state @ js ''</promise>'' @ post'"
    using buildIterationPrompt_promise_tag by blast
  have ext: "checkCompletion toUpper (b @ buildPrompt fractionText state @ a) (completionPromise state) = Some True" for b a
    using checkCompletion_echo [of toUpper "b @ pre" "completionPromise state" "post @ a"]
    by (simp add: p)
  have host: "checkCompletion toUpper (b @ buildIterationPrompt fractionText state @ a) (completionPromise state) = Some True" for b a
    using checkCompletion_echo [of toUpper "b @ pre'" "completionPromise state" "post' @ a"]
    by (simp add: p')
  show ?thesis
    using ext [of "[]" "[]"] host [of "[]" "[]"] ext [of before after] host [of before after]
      checkCompletion_echo [of toUpper before "completionPromise state" after]
    by simp
qed

theorem rendered_prompt_satisfies_matcher_witness:
  "checkCompletion id
     (js ''> '' @ buildPrompt (\<lambda>x. js ''0.5'') \<lparr>active = True, iteration = 1, maxIterations = 3,
        completionPromise = js ''a.b*c'', prompt = js ''fix it'', startedAt = [], sessionId = None,
        model = None, lastOutput = None\<rparr> @ js '' (quoted)'')
     (js ''a.b*c'') = Some True"
  using rendered_prompt_satisfies_matcher [of id "(\<lambda>x. js ''0.5'')" "\<lparr>active = True, iteration = 1, maxIterations = 3,
        completionPromise = js ''a.b*c'', prompt = js ''fix it'', startedAt = [], sessionId = None,
        model = None, lastOutput = None\<rparr>" "js ''> ''" "js '' (quoted)''"]
  by simp

section \<open>The state file and the effects\<close>

lemma emit_simps [simp]:
  "effects (emit e w) = effects w @ [e]"
  "stateFile (emit e w) = stateFile w"
  "dirExists (emit e w) = dirExists w"
  by (simp_all add: emit_def)

lemma ensureStateDir_simps [simp]:
  "effects (ensureStateDir w) = effects w @ mkdirEffects w"
  "stateFile (ensureStateDir w) = stateFile w"
  "dirExists (ensureStateDir w)"
  by (simp_all add: ensureStateDir_def mkdirEffects_def)

lemma saveState_simps [simp]:
  "effects (saveState s w) = effects w @ mkdirEffects w @ [WriteFileSync StatePath (StateJson s)]"
  "stateFile (saveState s w) = Some (Json s)"
  "dirExists (saveState s w)"
  "loadState (saveState s w) = Some s"
  by (simp_all add: saveState_def loadState_def)

lemma clearState_simps [simp]:
  "effects (clearState w) = effects w @ (if stateFile w \<noteq> None then [UnlinkSync StatePath] else [])"
  "stateFile (clearState w) = None"
  "dirExists (clearState w) = dirExists w"
  by (simp_all add: clearState_def)

lemma ensureFilteredPluginsConfig_simps [simp]:
  "effects (ensureFilteredPluginsConfig w) =
     effects w @ mkdirEffects w @ [WriteFileSync NoPluginsConfigPath PluginsConfigJson]"
  "stateFile (ensureFilteredPluginsConfig w) = stateFile w"
  "dirExists (ensureFilteredPluginsConfig w)"
  by (simp_all add: ensureFilteredPluginsConfig_def)

lemma isProcessing_simps [simp]:
  "isProcessing (emit e h) = isProcessing h"
  "isProcessing (saveState s h) = isProcessing h"
  "isProcessing (clearState h) = isProcessing h"
  by (simp_all add: emit_def saveState_def clearState_def ensureStateDir_def)

lemma spawnsOf_append [simp]: "spawnsOf (xs @ ys) = spawnsOf xs @ spawnsOf ys"
  by (induction xs rule: spawnsOf.induct) simp_all

lemma stateWrites_append [simp]: "stateWrites (xs @ ys) = stateWrites xs @ stateWrites ys"
  by (induction xs rule: stateWrites.induct) simp_all

lemma mkdirEffects_quiet [simp]:
  "spawnsOf (mkdirEffects w) = []" "stateWrites (mkdirEffects w) = []"
  by (simp_all add: mkdirEffects_def)

lemma isActive_Some: "loadState w = Some s \<Longrightarrow> isActive (loadState w) = active s"
  by (simp add: isActive_def)

section \<open>Starting a loop\<close>

text \<open>
  C2. When the state file holds a record whose \<open>active\<close> flag is set, starting a loop
  fails: the external driver exits with code 1 and the in-host \<open>ralph_start\<close> returns
  its refusal message. In both cases the world is the one before: the state file is
  unchanged and no file system call, so no write, has been made.
\<close>

theorem start_refused_while_active:
  assumes "loadState w = Some existing" and "active existing"
  shows "runRalphLoop toUpper fractionText opts now envs w = (Exited 1, w)
     \<and> ralph_start fractionText args now' w = (alreadyActiveMessage existing, w)"
  using assms by (simp add: runRalphLoop_def ralph_start_def isActive_def)

theorem start_refused_while_active_witness:
  "runRalphLoop id (\<lambda>x. js ''0.5'') defaultOptions [] []
      \<lparr>dirExists = True,
       stateFile = Some (Json \<lparr>active = True, iteration = 4, maxIterations = 0, completionPromise = js ''COMPLETE'',
         prompt = js ''fix it'', startedAt = [], sessionId = None, model = None, lastOutput = None\<rparr>),
       effects = []\<rparr>
    = (Exited 1,
      \<lparr>dirExists = True,
       stateFile = Some (Json \<lparr>active = True, iteration = 4, maxIterations = 0, completionPromise = js ''COMPLETE'',
         prompt = js ''fix it'', startedAt = [], sessionId = None, model = None, lastOutput = None\<rparr>),
       effects = []\<rparr>)"
  using start_refused_while_active [of
      "\<lparr>dirExists = True,
       stateFile = Some (Json \<lparr>active = True, iteration = 4, maxIterations = 0, completionPromise = js ''COMPLETE'',
         prompt = js ''fix it'', startedAt = [], sessionId = None, model = None, lastOutput = None\<rparr>),
       effects = []\<rparr>"
      "\<lparr>active = True, iteration = 4, maxIterations = 0, completionPromise = js ''COMPLETE'',
         prompt = js ''fix it'', startedAt = [], sessionId = None, model = None, lastOutput = None\<rparr>"
      id "(\<lambda>x. js ''0.5'')" defaultOptions "[]" "[]"]
  by (simp add: loadState_def)

section \<open>Saving the state\<close>

text \<open>
  C5, as amended. Every save creates the state directory when it is missing and then
  writes the JSON text of the record to the state path itself, in one \<open>writeFileSync\<close>:
  there is no temporary file and no rename, so the calls made are not an atomic
  replacement. The record saved is the record loaded afterwards, and a state file with
  unparsable content, such as a partial one, is loaded as no record.
\<close>

theorem saveState_overwrites_in_place:
  "effects (saveState state w) = effects w @ mkdirEffects w @ [WriteFileSync StatePath (StateJson state)]
   \<and> \<not> replacesAtomically (mkdirEffects w @ [WriteFileSync StatePath (StateJson state)])
   \<and> loadState (saveState state w) = Some state
   \<and> loadState (w\<lparr>stateFile := Some Unparsable\<rparr>) = None"
  by (simp add: replacesAtomically_def writesTo_def loadState_def mkdirEffects_def)

theorem saveState_overwrites_in_place_witness:
  "effects (saveState
      \<lparr>active = True, iteration = 2, maxIterations = 0, completionPromise = js ''COMPLETE'',
         prompt = js ''fix it'', startedAt = [], sessionId = None, model = None, lastOutput = None\<rparr>
      \<lparr>dirExists = False, stateFile = None, effects = []\<rparr>)
   = [MkdirSync StateDir, WriteFileSync StatePath (StateJson
      \<lparr>active = True, iteration = 2, maxIterations = 0, completionPromise = js ''COMPLETE'',
         prompt = js ''fix it'', startedAt = [], sessionId = None, model = None, lastOutput = None\<rparr>)]"
  using saveState_overwrites_in_place [of
      "\<lparr>active = True, iteration = 2, maxIterations = 0, completionPromise = js ''COMPLETE'',
         prompt = js ''fix it'', startedAt = [], sessionId = None, model = None, lastOutput = None\<rparr>"
      "\<lparr>dirExists = False, stateFile = None, effects = []\<rparr>"]
  by (simp add: mkdirEffects_def)

text \<open>
  C5 as stated has every save go through a temporary file and a rename, or an
  equivalent replacement. The only call of a save into an existing directory is a write
  to the state path.
\<close>

theorem saveState_atomic_counterexample:
  "\<not> replacesAtomically (effects (saveState
      \<lparr>active = True, iteration = 2, maxIterations = 0, completionPromise = js ''COMPLETE'',
         prompt = js ''fix it'', startedAt = [], sessionId = None, model = None, lastOutput = None\<rparr>
      \<lparr>dirExists = True, stateFile = None, effects = []\<rparr>))
   \<and> effects (saveState
      \<lparr>active = True, iteration = 2, maxIterations = 0, completionPromise = js ''COMPLETE'',
         prompt = js ''fix it'', startedAt = [], sessionId = None, model = None, lastOutput = None\<rparr>
      \<lparr>dirExists = True, stateFile = None, effects = []\<rparr>)
     = [WriteFileSync StatePath (StateJson
      \<lparr>active = True, iteration = 2, maxIterations = 0, completionPromise = js ''COMPLETE'',
         prompt = js ''fix it'', startedAt = [], sessionId = None, model = None, lastOutput = None\<rparr>)]"
  by (simp add: replacesAtomically_def writesTo_def mkdirEffects_def)

section \<open>One iteration of the external driver\<close>

lemma iterationBody_failed:
  assumes "exitCode \<noteq> 0"
    and "\<not> detectPlaceholderPluginError stderr" and "\<not> detectPlaceholderPluginError result"
  shows "\<exists>w'. iterationBody toUpper fractionText opts (Finished result stderr exitCode, git) state w = Stop exitCode w'
     \<and> stateFile w' = None
     \<and> effects w' = effects w @ spawnEffects fractionText opts state w
          @ (if stateFile w \<noteq> None then [UnlinkSync StatePath] else [])"
  using assms by (simp add: iterationBody_def Let_def spawnEffects_def)

lemma spawnEffects_quiet [simp]:
  "stateWrites (spawnEffects fractionText opts state w) = []"
  "spawnsOf (spawnEffects fractionText opts state w) = [js ''opencode'' # cmdArgs fractionText opts state]"
  "\<not> list_ex isGitEffect (spawnEffects fractionText opts state w)"
  by (simp_all add: spawnEffects_def isGitEffect_def mkdirEffects_def)

lemma not_reached_at_one: "\<not> maxIterationsReached (m::int) 1"
  by (simp add: maxIterationsReached_def)

text \<open>
  C4. In an iteration whose agent process exits with a code \<open>c\<close> other than 0, with no
  placeholder sentinel on either stream, the driver stops with exit code \<open>c\<close> and the
  state file removed. After starting the agent it does nothing but remove the state
  file: no \<open>git\<close> command is run, the state file is not written (so no incremented
  iteration is saved), and the rest of the answers is not looked at. The first
  iteration of a fresh run is such an iteration.
\<close>

theorem agent_failure_stops_with_its_code:
  assumes "exitCode \<noteq> 0"
    and "\<not> detectPlaceholderPluginError stderr" and "\<not> detectPlaceholderPluginError result"
    and "\<not> maxIterationsReached (optMaxIterations opts) (iteration state)"
    and "\<not> isActive (loadState (w0 :: 'a world_scheme))"
  shows "fst (mainLoop toUpper fractionText opts ((Finished result stderr exitCode, git) # envs) state (w :: 'a world_scheme)) = Exited exitCode
     \<and> stateFile (snd (mainLoop toUpper fractionText opts ((Finished result stderr exitCode, git) # envs) state w)) = None
     \<and> effects (snd (mainLoop toUpper fractionText opts ((Finished result stderr exitCode, git) # envs) state w))
         = effects w @ spawnEffects fractionText opts state w @ (if stateFile w \<noteq> None then [UnlinkSync StatePath] else [])
     \<and> stateWrites (effects (snd (mainLoop toUpper fractionText opts ((Finished result stderr exitCode, git) # envs) state w)))
         = stateWrites (effects w)
     \<and> \<not> list_ex isGitEffect (spawnEffects fractionText opts state w @ (if stateFile w \<noteq> None then [UnlinkSync StatePath] else []))
     \<and> fst (runRalphLoop toUpper fractionText opts now ((Finished result stderr exitCode, git) # envs) w0) = Exited exitCode
     \<and> stateFile (snd (runRalphLoop toUpper fractionText opts now ((Finished result stderr exitCode, git) # envs) w0)) = None
     \<and> stateWrites (effects (snd (runRalphLoop toUpper fractionText opts now ((Finished result stderr exitCode, git) # envs) w0)))
         = stateWrites (effects w0) @ [initialState opts now]"
proof -
  have body: "\<exists>w'. iterationBody toUpper fractionText opts (Finished result stderr exitCode, git) st w1 = Stop exitCode w'
     \<and> stateFile w' = None
     \<and> effects w' = effects w1 @ spawnEffects fractionText opts st w1
          @ (if stateFile w1 \<noteq> None then [UnlinkSync StatePath] else [])" for st and w1 :: "'a world_scheme"
    using assms(1-3) by (rule iterationBody_failed)
  from body [of state w] obtain w' where w':
    "iterationBody toUpper fractionText opts (Finished result stderr exitCode, git) state w = Stop exitCode w'"
    "stateFile w' = None"
    "effects w' = effects w @ spawnEffects fractionText opts state w @ (if stateFile w \<noteq> None then [UnlinkSync StatePath] else [])"
    by blast
  have loop: "mainLoop toUpper fractionText opts ((Finished result stderr exitCode, git) # envs) state w = (Exited exitCode, w')"
    using assms(4) w'(1) by simp
  from body [of "initialState opts now" "saveState (initialState opts now) w0"] obtain w'' where w'':
    "iterationBody toUpper fractionText opts (Finished result stderr exitCode, git) (initialState opts now)
       (saveState (initialState opts now) w0) = Stop exitCode w''"
    "stateFile w'' = None"
    "effects w'' = effects (saveState (initialState opts now) w0)
       @ spawnEffects fractionText opts (initialState opts now) (saveState (initialState opts now) w0)
       @ (if stateFile (saveState (initialState opts now) w0) \<noteq> None then [UnlinkSync StatePath] else [])"
    by blast
  have "iteration (initialState opts now) = 1" by (simp add: initialState_def)
  then have run: "runRalphLoop toUpper fractionText opts now ((Finished result stderr exitCode, git) # envs) w0 = (Exited exitCode, w'')"
    using assms(5) w''(1) by (simp add: runRalphLoop_def not_reached_at_one)
  have git: "\<not> list_ex isGitEffect (spawnEffects fractionText opts state w @ (if stateFile w \<noteq> None then [UnlinkSync StatePath] else []))"
    using spawnEffects_quiet(3) [of fractionText opts state w] by (simp add: isGitEffect_def)
  show ?thesis
    unfolding loop run using w'(2,3) w''(2,3) git by simp
qed


lemma detect_needs_length: "detectPlaceholderPluginError s \<Longrightarrow> 69 \<le> length s"
proof -
  have "length (js ''ralph-wiggum is not yet ready for use. This is a placeholder package.'') = 69"
    by (simp add: js_def)
  then show "detectPlaceholderPluginError s \<Longrightarrow> 69 \<le> length s"
    unfolding detectPlaceholderPluginError_def includesStr_def
    using sublist_length_le by fastforce
qed

theorem agent_failure_stops_with_its_code_witness:
  "fst (runRalphLoop id (\<lambda>x. js ''0.5'') (defaultOptions\<lparr>optPrompt := js ''fix it''\<rparr>) []
          [(Finished [] (js ''boom'') 1, GitDirty)] \<lparr>dirExists = False, stateFile = None, effects = []\<rparr>)
     = Exited 1
   \<and> stateFile (snd (runRalphLoop id (\<lambda>x. js ''0.5'') (defaultOptions\<lparr>optPrompt := js ''fix it''\<rparr>) []
          [(Finished [] (js ''boom'') 1, GitDirty)] \<lparr>dirExists = False, stateFile = None, effects = []\<rparr>))
     = None
   \<and> stateWrites (effects (snd (runRalphLoop id (\<lambda>x. js ''0.5'') (defaultOptions\<lparr>optPrompt := js ''fix it''\<rparr>) []
          [(Finished [] (js ''boom'') 1, GitDirty)] \<lparr>dirExists = False, stateFile = None, effects = []\<rparr>)))
     = [initialState (defaultOptions\<lparr>optPrompt := js ''fix it''\<rparr>) []]"
proof -
  have a: "(1::int) \<noteq> 0" by simp
  have b: "\<not> detectPlaceholderPluginError (js ''boom'')"
    using detect_needs_length [of "js ''boom''"] by (auto simp: js_def)
  have c: "\<not> detectPlaceholderPluginError []"
    using detect_needs_length [of "[]"] by auto
  have d: "\<not> maxIterationsReached (optMaxIterations (defaultOptions\<lparr>optPrompt := js ''fix it''\<rparr>))
      (iteration (initialState (defaultOptions\<lparr>optPrompt := js ''fix it''\<rparr>) []))"
    by (simp add: maxIterationsReached_def defaultOptions_def)
  have e: "\<not> isActive (loadState \<lparr>dirExists = False, stateFile = None, effects = []\<rparr>)"
    by (simp add: isActive_def loadState_def)
  show ?thesis
    using agent_failure_stops_with_its_code [OF a b c d e, of id "(\<lambda>x. js ''0.5'')" GitDirty "[]"
        "\<lparr>dirExists = False, stateFile = None, effects = []\<rparr>" "[]"]
    by simp
qed

section \<open>The loop of the external driver\<close>

lemma iterationBody_uneventful:
  assumes "uneventful toUpper opts env"
  shows "\<exists>w'. iterationBody toUpper fractionText opts env state w = Continue (state\<lparr>iteration := iteration state + 1\<rparr>) w'
     \<and> spawnsOf (effects w') = spawnsOf (effects w) @ [js ''opencode'' # cmdArgs fractionText opts state]
     \<and> stateFile w' = Some (Json (state\<lparr>iteration := iteration state + 1\<rparr>))"
proof (cases "fst env")
  case SpawnFailed
  with assms show ?thesis by (simp add: uneventful_def)
next
  case (Finished result stderr exitCode)
  with assms show ?thesis
    by (cases "snd env")
      (simp_all add: uneventful_def iterationBody_def Let_def autoCommit_def)
qed

lemma mainLoop_uneventful:
  assumes "k = nat (optMaxIterations opts + 1 - iteration state)"
    and "iteration state \<le> optMaxIterations opts + 1"
    and "0 < optMaxIterations opts"
    and "k \<le> length envs"
    and "\<forall>env \<in> set (take k envs). uneventful toUpper opts env"
  shows "fst (mainLoop toUpper fractionText opts envs state w) = Exited 0
     \<and> stateFile (snd (mainLoop toUpper fractionText opts envs state w)) = None
     \<and> spawnsOf (effects (snd (mainLoop toUpper fractionText opts envs state w)))
         = spawnsOf (effects w)
           @ map (\<lambda>i. js ''opencode'' # cmdArgs fractionText opts (state\<lparr>iteration := i\<rparr>))
               [iteration state..optMaxIterations opts]"
  using assms
proof (induction k arbitrary: envs state w)
  case 0
  then have reached: "maxIterationsReached (optMaxIterations opts) (iteration state)"
    by (simp add: maxIterationsReached_def)
  have empty: "[iteration state..optMaxIterations opts] = []"
    using 0 by simp
  show ?case
    using reached empty by (cases envs) simp_all
next
  case (Suc k)
  then obtain env rest where envs: "envs = env # rest" by (cases envs) auto
  have le: "iteration state \<le> optMaxIterations opts" using Suc.prems(1) by linarith
  then have notyet: "\<not> maxIterationsReached (optMaxIterations opts) (iteration state)"
    by (simp add: maxIterationsReached_def)
  have "uneventful toUpper opts env" using Suc.prems(5) envs by simp
  then obtain w' where w':
    "iterationBody toUpper fractionText opts env state w = Continue (state\<lparr>iteration := iteration state + 1\<rparr>) w'"
    "spawnsOf (effects w') = spawnsOf (effects w) @ [js ''opencode'' # cmdArgs fractionText opts state]"
    using iterationBody_uneventful [of toUpper opts env fractionText state w] by blast
  let ?next = "state\<lparr>iteration := iteration state + 1\<rparr>"
  have step: "mainLoop toUpper fractionText opts envs state w = mainLoop toUpper fractionText opts rest ?next w'"
    using envs notyet w'(1) by simp
  have k: "k = nat (optMaxIterations opts + 1 - iteration ?next)" using Suc.prems(1) by simp
  have ih: "fst (mainLoop toUpper fractionText opts rest ?next w') = Exited 0
     \<and> stateFile (snd (mainLoop toUpper fractionText opts rest ?next w')) = None
     \<and> spawnsOf (effects (snd (mainLoop toUpper fractionText opts rest ?next w')))
         = spawnsOf (effects w')
           @ map (\<lambda>i. js ''opencode'' # cmdArgs fractionText opts (?next\<lparr>iteration := i\<rparr>))
               [iteration ?next..optMaxIterations opts]"
  proof (rule Suc.IH [OF k])
    show "iteration ?next \<le> optMaxIterations opts + 1" using le by simp
    show "0 < optMaxIterations opts" by (rule Suc.prems(3))
    show "k \<le> length rest" using Suc.prems(4) envs by simp
    show "\<forall>env \<in> set (take k rest). uneventful toUpper opts env"
      using Suc.prems(5) envs by simp
  qed
  have range: "[iteration state..optMaxIterations opts]
      = iteration state # [iteration state + 1..optMaxIterations opts]"
    using le by (simp add: upto_rec1)
  show ?case
    unfolding step range using ih w'(2) by simp
qed

text \<open>
  C3. With \<open>maxIterations = m > 0\<close>, when each of the first \<open>m\<close> iterations ends with
  exit code 0, no sentinel and no completion marker, the driver starts the agent
  exactly \<open>m\<close> times, with the prompts of the iterations 1 to \<open>m\<close> in this order, then
  removes the state file and ends with exit code 0; whatever the outside world would
  answer to a further iteration is not asked for. For \<open>m = 3\<close> these are the
  iterations 1, 2 and 3.
\<close>

theorem runs_exactly_maxIterations_iterations:
  assumes "0 < optMaxIterations opts"
    and "\<not> isActive (loadState w)"
    and "nat (optMaxIterations opts) \<le> length envs"
    and "\<forall>env \<in> set (take (nat (optMaxIterations opts)) envs). uneventful toUpper opts env"
  shows "fst (runRalphLoop toUpper fractionText opts now envs w) = Exited 0
     \<and> stateFile (snd (runRalphLoop toUpper fractionText opts now envs w)) = None
     \<and> spawnsOf (effects (snd (runRalphLoop toUpper fractionText opts now envs w)))
         = spawnsOf (effects w)
           @ map (\<lambda>i. js ''opencode'' # cmdArgs fractionText opts ((initialState opts now)\<lparr>iteration := i\<rparr>))
               [1..optMaxIterations opts]"
proof -
  have it: "iteration (initialState opts now) = 1" by (simp add: initialState_def)
  have k: "nat (optMaxIterations opts) = nat (optMaxIterations opts + 1 - iteration (initialState opts now))"
    using it by simp
  have le: "iteration (initialState opts now) \<le> optMaxIterations opts + 1"
    using it assms(1) by simp
  show ?thesis
    using mainLoop_uneventful [OF k le assms(1) assms(3) assms(4),
        of fractionText "saveState (initialState opts now) w"] assms(2) it
    by (simp add: runRalphLoop_def)
qed


theorem runs_exactly_maxIterations_iterations_witness:
  "fst (runRalphLoop id (\<lambda>x. js ''0.5'') (defaultOptions\<lparr>optPrompt := js ''fix it'', optMaxIterations := 3\<rparr>) []
          [(Finished [] [] 0, GitClean), (Finished (js ''working'') [] 0, GitDirty),
           (Finished [] [] 0, GitFailed), (Finished [] [] 1, GitClean)]
          \<lparr>dirExists = False, stateFile = None, effects = []\<rparr>)
     = Exited 0
   \<and> stateFile (snd (runRalphLoop id (\<lambda>x. js ''0.5'') (defaultOptions\<lparr>optPrompt := js ''fix it'', optMaxIterations := 3\<rparr>) []
          [(Finished [] [] 0, GitClean), (Finished (js ''working'') [] 0, GitDirty),
           (Finished [] [] 0, GitFailed), (Finished [] [] 1, GitClean)]
          \<lparr>dirExists = False, stateFile = None, effects = []\<rparr>))
     = None
   \<and> spawnsOf (effects (snd (runRalphLoop id (\<lambda>x. js ''0.5'') (defaultOptions\<lparr>optPrompt := js ''fix it'', optMaxIterations := 3\<rparr>) []
          [(Finished [] [] 0, GitClean), (Finished (js ''working'') [] 0, GitDirty),
           (Finished [] [] 0, GitFailed), (Finished [] [] 1, GitClean)]
          \<lparr>dirExists = False, stateFile = None, effects = []\<rparr>)))
     = map (\<lambda>i. js ''opencode'' # cmdArgs (\<lambda>x. js ''0.5'') (defaultOptions\<lparr>optPrompt := js ''fix it'', optMaxIterations := 3\<rparr>)
               ((initialState (defaultOptions\<lparr>optPrompt := js ''fix it'', optMaxIterations := 3\<rparr>) [])\<lparr>iteration := i\<rparr>))
         [1, 2, 3]"
proof -
  let ?opts = "defaultOptions\<lparr>optPrompt := js ''fix it'', optMaxIterations := 3\<rparr>"
  let ?w = "\<lparr>dirExists = False, stateFile = None, effects = []\<rparr>"
  let ?envs = "[(Finished [] [] 0, GitClean), (Finished (js ''working'') [] 0, GitDirty),
           (Finished [] [] 0, GitFailed), (Finished [] [] 1, GitClean)]"
  have m: "optMaxIterations ?opts = 3" by simp
  have d0: "\<not> detectPlaceholderPluginError []"
    using detect_needs_length [of "[]"] by auto
  have d1: "\<not> detectPlaceholderPluginError (js ''working'')"
    using detect_needs_length [of "js ''working''"] by (auto simp: js_def)
  have c0: "checkCompletion id [] (optCompletionPromise ?opts) = Some False"
    by (rule checkCompletion_no_bracket) simp
  have c1: "checkCompletion id (js ''working'') (optCompletionPromise ?opts) = Some False"
    by (rule checkCompletion_no_bracket) (simp add: js_def)
  have a: "0 < optMaxIterations ?opts" by simp
  have b: "\<not> isActive (loadState ?w)" by (simp add: isActive_def loadState_def)
  have c: "nat (optMaxIterations ?opts) \<le> length ?envs" by simp
  have three: "nat 3 = Suc (Suc (Suc 0))" by simp
  have d: "\<forall>env \<in> set (take (nat (optMaxIterations ?opts)) ?envs). uneventful id ?opts env"
    unfolding m three using d0 d1 c0 c1 by (simp add: uneventful_def)
  have upto: "[1..3::int] = [1, 2, 3]" by code_simp
  show ?thesis
    using runs_exactly_maxIterations_iterations [OF a b c d, where now = "[]" and fractionText = "(\<lambda>x. js ''0.5'')"] upto
    by simp
qed

section \<open>A loop without a limit\<close>


section \<open>The in-host driver\<close>

lemma sameTask_fields:
  "sameTask s s' \<Longrightarrow> prompt s' = prompt s \<and> completionPromise s' = completionPromise s"
  unfolding sameTask_def by (cases s, cases s') auto

lemma sameTask_refl [simp]: "sameTask s s"
  by (simp add: sameTask_def)

lemma sameTask_iteration: "sameTask s s' \<Longrightarrow> sameTask s (s'\<lparr>iteration := i\<rparr>)"
  by (simp add: sameTask_def)

lemma sameTask_lastOutput: "sameTask s s' \<Longrightarrow> sameTask s (s'\<lparr>lastOutput := t\<rparr>)"
  by (simp add: sameTask_def)

lemma onIdle_writes:
  "stateFile h = Some (Json s') \<Longrightarrow>
   \<exists>ws. stateWrites (effects (snd (onIdle toUpper fractionText hasClient eventSession h))) = stateWrites (effects h) @ ws
       \<and> list_all (sameTask s') ws
       \<and> keepsTask s' (snd (onIdle toUpper fractionText hasClient eventSession h))"
  by (auto simp: onIdle_def loadState_def keepsTask_def Let_def sameTask_iteration
        split: option.splits bool.splits)

lemma onMessageUpdated_writes:
  "stateFile h = Some (Json s') \<Longrightarrow>
   \<exists>ws. stateWrites (effects (snd (onMessageUpdated toUpper role content h))) = stateWrites (effects h) @ ws
       \<and> list_all (sameTask s') ws
       \<and> keepsTask s' (snd (onMessageUpdated toUpper role content h))"
  by (auto simp: onMessageUpdated_def loadState_def keepsTask_def sameTask_lastOutput
        split: option.splits bool.splits)


lemma loadState_emit [simp]: "loadState (emit e w) = loadState w"
  by (simp add: loadState_def)

lemma isProcessing_update_simps [simp]:
  "mkdirEffects (h\<lparr>isProcessing := b\<rparr>) = mkdirEffects h"
  "loadState (h\<lparr>isProcessing := b\<rparr>) = loadState h"
  by (simp_all add: mkdirEffects_def loadState_def)

lemma sameTask_trans: "sameTask s s' \<Longrightarrow> sameTask s' s'' \<Longrightarrow> sameTask s s''"
  unfolding sameTask_def by (cases s, cases s', cases s'') auto

lemma list_all_sameTask_trans:
  "sameTask s s' \<Longrightarrow> list_all (sameTask s') ws \<Longrightarrow> list_all (sameTask s) ws"
  by (induction ws) (auto intro: sameTask_trans)

lemma keepsTask_trans:
  "sameTask s s' \<Longrightarrow> keepsTask s' w \<Longrightarrow> keepsTask s w"
  by (auto simp: keepsTask_def split: option.splits content.splits intro: sameTask_trans)

lemma hostStep_keeps:
  assumes "keepsTask s h"
  shows "\<exists>ws. stateWrites (effects (hostStep toUpper fractionText op h)) = stateWrites (effects h) @ ws
       \<and> list_all (sameTask s) ws
       \<and> keepsTask s (hostStep toUpper fractionText op h)"
proof (cases "stateFile h")
  case None
  then have load: "loadState h = None" by (simp add: loadState_def)
  have "hostStep toUpper fractionText op h = h \<or> hostStep toUpper fractionText op h = promptSettled h"
  proof (cases op)
    case (HostEvent hasClient ev)
    then show ?thesis
      using load by (cases ev) (simp_all add: onEvent_def onIdle_def onMessageUpdated_def)
  next
    case PromptSettles
    then show ?thesis by simp
  next
    case Cancel
    then show ?thesis using load by (simp add: ralph_cancel_def)
  qed
  then show ?thesis
    using assms by (auto simp: promptSettled_def keepsTask_def)
next
  case (Some c)
  with assms obtain s' where stored: "stateFile h = Some (Json s')" and same: "sameTask s s'"
    by (cases c) (auto simp: keepsTask_def)
  have "\<exists>ws. stateWrites (effects (hostStep toUpper fractionText op h)) = stateWrites (effects h) @ ws
       \<and> list_all (sameTask s') ws
       \<and> keepsTask s' (hostStep toUpper fractionText op h)"
  proof (cases op)
    case (HostEvent hasClient ev)
    show ?thesis
    proof (cases ev)
      case (SessionIdle eventSession)
      show ?thesis
      proof (cases "isProcessing h")
        case True
        then show ?thesis
          using HostEvent SessionIdle stored by (simp add: onEvent_def keepsTask_def)
      next
        case False
        then show ?thesis
          using HostEvent SessionIdle onIdle_writes [OF stored, of toUpper fractionText hasClient eventSession]
          by (simp add: onEvent_def)
      qed
    next
      case (MessageUpdated role content)
      then show ?thesis
        using HostEvent onMessageUpdated_writes [OF stored, of toUpper role content]
        by (simp add: onEvent_def)
    next
      case OtherEvent
      then show ?thesis
        using HostEvent stored by (simp add: onEvent_def keepsTask_def)
    qed
  next
    case PromptSettles
    then show ?thesis using stored by (simp add: promptSettled_def keepsTask_def)
  next
    case Cancel
    then show ?thesis
      using stored by (simp add: ralph_cancel_def loadState_def keepsTask_def)
  qed
  then show ?thesis
    using same list_all_sameTask_trans keepsTask_trans by blast
qed

lemma hostRun_keeps:
  "keepsTask s h \<Longrightarrow>
   \<exists>ws. stateWrites (effects (hostRun toUpper fractionText ops h)) = stateWrites (effects h) @ ws
       \<and> list_all (sameTask s) ws
       \<and> keepsTask s (hostRun toUpper fractionText ops h)"
proof (induction ops arbitrary: h)
  case Nil
  then show ?case by simp
next
  case (Cons op ops)
  from hostStep_keeps [OF Cons.prems, of toUpper fractionText op] obtain ws where ws:
    "stateWrites (effects (hostStep toUpper fractionText op h)) = stateWrites (effects h) @ ws"
    "list_all (sameTask s) ws" "keepsTask s (hostStep toUpper fractionText op h)"
    by blast
  from Cons.IH [OF ws(3)] obtain ws' where ws':
    "stateWrites (effects (hostRun toUpper fractionText ops (hostStep toUpper fractionText op h)))
       = stateWrites (effects (hostStep toUpper fractionText op h)) @ ws'"
    "list_all (sameTask s) ws'" "keepsTask s (hostRun toUpper fractionText ops (hostStep toUpper fractionText op h))"
    by blast
  have "stateWrites (effects (hostRun toUpper fractionText (op # ops) h)) = stateWrites (effects h) @ (ws @ ws')
       \<and> list_all (sameTask s) (ws @ ws')
       \<and> keepsTask s (hostRun toUpper fractionText (op # ops) h)"
    using ws ws' by simp
  then show ?case by blast
qed

lemma iterationBody_writes:
  "(\<exists>c w'. iterationBody toUpper fractionText opts env state w = Stop c w'
        \<and> stateWrites (effects w') = stateWrites (effects w))
   \<or> (\<exists>w'. iterationBody toUpper fractionText opts env state w = Continue (state\<lparr>iteration := iteration state + 1\<rparr>) w'
        \<and> stateWrites (effects w') = stateWrites (effects w) @ [state\<lparr>iteration := iteration state + 1\<rparr>])"
  by (cases "fst env"; cases "snd env")
    (auto simp: iterationBody_def catchBlock_def Let_def autoCommit_def split: option.splits bool.splits)

lemma mainLoop_writes:
  "\<exists>ws. stateWrites (effects (snd (mainLoop toUpper fractionText opts envs state w))) = stateWrites (effects w) @ ws
       \<and> list_all (sameTask state) ws"
proof (induction envs arbitrary: state w)
  case Nil
  then show ?case by simp
next
  case (Cons env envs)
  show ?case
  proof (cases "maxIterationsReached (optMaxIterations opts) (iteration state)")
    case True
    then show ?thesis by simp
  next
    case False
    from iterationBody_writes [of toUpper fractionText opts env state w] show ?thesis
    proof
      assume "\<exists>c w'. iterationBody toUpper fractionText opts env state w = Stop c w'
        \<and> stateWrites (effects w') = stateWrites (effects w)"
      then show ?thesis using False by auto
    next
      let ?next = "state\<lparr>iteration := iteration state + 1\<rparr>"
      assume "\<exists>w'. iterationBody toUpper fractionText opts env state w = Continue ?next w'
        \<and> stateWrites (effects w') = stateWrites (effects w) @ [?next]"
      then obtain w' where w': "iterationBody toUpper fractionText opts env state w = Continue ?next w'"
        "stateWrites (effects w') = stateWrites (effects w) @ [?next]"
        by blast
      from Cons.IH [of ?next w'] obtain ws where ws:
        "stateWrites (effects (snd (mainLoop toUpper fractionText opts envs ?next w'))) = stateWrites (effects w') @ ws"
        "list_all (sameTask ?next) ws"
        by blast
      have next_same: "sameTask state ?next" by (simp add: sameTask_def)
      have "stateWrites (effects (snd (mainLoop toUpper fractionText opts (env # envs) state w)))
          = stateWrites (effects w) @ (?next # ws)
        \<and> list_all (sameTask state) (?next # ws)"
        using False w' ws next_same list_all_sameTask_trans [OF next_same ws(2)] by simp
      then show ?thesis by blast
    qed
  qed
qed

lemma runRalphLoop_writes:
  "\<exists>ws. stateWrites (effects (snd (runRalphLoop toUpper fractionText opts now envs w))) = stateWrites (effects w) @ ws
       \<and> list_all (sameTask (initialState opts now)) ws"
proof (cases "isActive (loadState w)")
  case True
  then show ?thesis by (simp add: runRalphLoop_def)
next
  case False
  from mainLoop_writes [of toUpper fractionText opts envs "initialState opts now" "saveState (initialState opts now) w"]
  obtain ws where ws:
    "stateWrites (effects (snd (mainLoop toUpper fractionText opts envs (initialState opts now)
        (saveState (initialState opts now) w))))
      = stateWrites (effects (saveState (initialState opts now) w)) @ ws"
    "list_all (sameTask (initialState opts now)) ws"
    by blast
  have "stateWrites (effects (snd (runRalphLoop toUpper fractionText opts now envs w)))
      = stateWrites (effects w) @ (initialState opts now # ws)
    \<and> list_all (sameTask (initialState opts now)) (initialState opts now # ws)"
    using False ws by (simp add: runRalphLoop_def)
  then show ?thesis by blast
qed


section \<open>The task of a loop does not change\<close>

text \<open>
  C8. Every record that a run of the external driver writes to the state file is the
  record it created but for \<open>iteration\<close>: \<open>prompt\<close> and \<open>completionPromise\<close> are those
  of the command line. In the in-host driver, from a state file that holds a record,
  after any sequence of events, resumed handlers and cancellations, every record
  written is the stored one but for \<open>iteration\<close> and \<open>lastOutput\<close>, with the same
  \<open>prompt\<close> and \<open>completionPromise\<close>, and the state file is gone or holds such a
  record.
\<close>

theorem task_fields_never_change:
  "(\<exists>ws. stateWrites (effects (snd (runRalphLoop toUpper fractionText opts now envs w))) = stateWrites (effects w) @ ws
        \<and> list_all (\<lambda>s. sameTask (initialState opts now) s \<and> prompt s = optPrompt opts
              \<and> completionPromise s = optCompletionPromise opts) ws)
   \<and> (stateFile h = Some (Json created) \<longrightarrow>
        (\<exists>ws. stateWrites (effects (hostRun toUpper fractionText ops h)) = stateWrites (effects h) @ ws
           \<and> list_all (\<lambda>s. sameTask created s \<and> prompt s = prompt created
                 \<and> completionPromise s = completionPromise created) ws
           \<and> keepsTask created (hostRun toUpper fractionText ops h)))"
proof -
  have fields: "list_all (sameTask s) ws \<Longrightarrow>
      list_all (\<lambda>s'. sameTask s s' \<and> prompt s' = prompt s \<and> completionPromise s' = completionPromise s) ws"
    for s ws
    by (induction ws) (auto dest: sameTask_fields)
  from runRalphLoop_writes [of toUpper fractionText opts now envs w] obtain ws where ws:
    "stateWrites (effects (snd (runRalphLoop toUpper fractionText opts now envs w))) = stateWrites (effects w) @ ws"
    "list_all (sameTask (initialState opts now)) ws"
    by blast
  have "list_all (\<lambda>s. sameTask (initialState opts now) s \<and> prompt s = optPrompt opts
              \<and> completionPromise s = optCompletionPromise opts) ws"
    using fields [OF ws(2)] by (simp add: initialState_def)
  with ws(1) have external:
    "\<exists>ws. stateWrites (effects (snd (runRalphLoop toUpper fractionText opts now envs w))) = stateWrites (effects w) @ ws
        \<and> list_all (\<lambda>s. sameTask (initialState opts now) s \<and> prompt s = optPrompt opts
              \<and> completionPromise s = optCompletionPromise opts) ws"
    by blast
  have host: "\<exists>ws. stateWrites (effects (hostRun toUpper fractionText ops h)) = stateWrites (effects h) @ ws
           \<and> list_all (\<lambda>s. sameTask created s \<and> prompt s = prompt created
                 \<and> completionPromise s = completionPromise created) ws
           \<and> keepsTask created (hostRun toUpper fractionText ops h)"
    if "stateFile h = Some (Json created)"
  proof -
    have "keepsTask created h" using that by (simp add: keepsTask_def)
    from hostRun_keeps [OF this, of toUpper fractionText ops] fields show ?thesis by blast
  qed
  show ?thesis using external host by blast
qed

theorem task_fields_never_change_witness:
  "keepsTask
      \<lparr>active = True, iteration = 1, maxIterations = 0, completionPromise = js ''DONE'',
        prompt = js ''fix it'', startedAt = [], sessionId = None, model = None, lastOutput = None\<rparr>
      (hostRun id (\<lambda>x. js ''0.5'')
         [HostEvent True (SessionIdle (Some (js ''s1''))), PromptSettles,
          HostEvent True (MessageUpdated (Some (js ''assistant'')) (Text (js ''<promise>DONE</promise>'')))]
         \<lparr>dirExists = True,
          stateFile = Some (Json \<lparr>active = True, iteration = 1, maxIterations = 0, completionPromise = js ''DONE'',
            prompt = js ''fix it'', startedAt = [], sessionId = None, model = None, lastOutput = None\<rparr>),
          effects = [], isProcessing = False\<rparr>)"
proof -
  let ?created = "\<lparr>active = True, iteration = 1, maxIterations = 0, completionPromise = js ''DONE'',
        prompt = js ''fix it'', startedAt = [], sessionId = None, model = None, lastOutput = None\<rparr>"
  let ?h = "\<lparr>dirExists = True, stateFile = Some (Json ?created), effects = [], isProcessing = False\<rparr>"
  have stored: "stateFile ?h = Some (Json ?created)" by simp
  show ?thesis
    using task_fields_never_change [where h = ?h and created = ?created and toUpper = id and fractionText = "(\<lambda>x. js ''0.5'')"
      and ops = "[HostEvent True (SessionIdle (Some (js ''s1''))), PromptSettles,
          HostEvent True (MessageUpdated (Some (js ''assistant'')) (Text (js ''<promise>DONE</promise>'')))]"]
      stored
    by blast
qed

section \<open>Idle events while a continuation is in flight\<close>

text \<open>
  C6. An idle event that arrives while \<open>isProcessing\<close> is set changes nothing and
  submits nothing. So when the handler of a first idle event has suspended at its
  prompt submission, having saved the incremented iteration and submitted the prompt
  once, a second idle event returns at once with the world as it is; after both, and
  the first handler's resumption, the effects are those of the first handler alone: one
  write of the state file and one submission.
\<close>

theorem second_idle_event_does_nothing:
  "(isProcessing h \<longrightarrow> onEvent toUpper fractionText hasClient (SessionIdle eventSession) h = (Returned, h))
   \<and> (onEvent toUpper fractionText hasClient (SessionIdle eventSession) h = (AwaitingPrompt, hs) \<longrightarrow>
        isProcessing hs
        \<and> onEvent toUpper fractionText hasClient' (SessionIdle eventSession') hs = (Returned, hs)
        \<and> (\<exists>state. loadState h = Some state
              \<and> loadState hs = Some (state\<lparr>iteration := iteration state + 1\<rparr>)
              \<and> effects hs = effects h @ mkdirEffects h @
                   [WriteFileSync StatePath (StateJson (state\<lparr>iteration := iteration state + 1\<rparr>)),
                    SessionPrompt (stringOf (orElse eventSession (sessionId state)))
                      (buildIterationPrompt fractionText (state\<lparr>iteration := iteration state + 1\<rparr>))])
        \<and> effects (hostRun toUpper fractionText
              [HostEvent hasClient (SessionIdle eventSession),
               HostEvent hasClient' (SessionIdle eventSession'), PromptSettles] h) = effects hs
        \<and> stateFile (hostRun toUpper fractionText
              [HostEvent hasClient (SessionIdle eventSession),
               HostEvent hasClient' (SessionIdle eventSession'), PromptSettles] h) = stateFile hs
        \<and> \<not> isProcessing (hostRun toUpper fractionText
              [HostEvent hasClient (SessionIdle eventSession),
               HostEvent hasClient' (SessionIdle eventSession'), PromptSettles] h))"
proof -
  have skip: "isProcessing g \<Longrightarrow> onEvent toUpper fractionText c (SessionIdle e) g = (Returned, g)" for g c e
    by (simp add: onEvent_def)
  have first: "isProcessing hs
        \<and> (\<exists>state. loadState h = Some state
              \<and> loadState hs = Some (state\<lparr>iteration := iteration state + 1\<rparr>)
              \<and> effects hs = effects h @ mkdirEffects h @
                   [WriteFileSync StatePath (StateJson (state\<lparr>iteration := iteration state + 1\<rparr>)),
                    SessionPrompt (stringOf (orElse eventSession (sessionId state)))
                      (buildIterationPrompt fractionText (state\<lparr>iteration := iteration state + 1\<rparr>))])"
    if "onEvent toUpper fractionText hasClient (SessionIdle eventSession) h = (AwaitingPrompt, hs)"
    using that
    by (auto simp: onEvent_def onIdle_def Let_def split: if_splits option.splits bool.splits)
  have run: "hostRun toUpper fractionText
              [HostEvent hasClient (SessionIdle eventSession),
               HostEvent hasClient' (SessionIdle eventSession'), PromptSettles] h = promptSettled hs"
    if "onEvent toUpper fractionText hasClient (SessionIdle eventSession) h = (AwaitingPrompt, hs)"
    using that first [OF that] skip [of hs hasClient' eventSession'] by simp
  show ?thesis
    using skip [of h hasClient eventSession] skip [of hs hasClient' eventSession'] first run
    by (auto simp: promptSettled_def)
qed


theorem second_idle_event_does_nothing_witness:
  "isProcessing (snd (onEvent id (\<lambda>x. js ''0.5'') True (SessionIdle (Some (js ''s1'')))
      \<lparr>dirExists = True,
       stateFile = Some (Json \<lparr>active = True, iteration = 1, maxIterations = 0, completionPromise = js ''DONE'',
         prompt = js ''fix it'', startedAt = [], sessionId = None, model = None, lastOutput = None\<rparr>),
       effects = [], isProcessing = False\<rparr>))
   \<and> onEvent id (\<lambda>x. js ''0.5'') True (SessionIdle (Some (js ''s1'')))
        (snd (onEvent id (\<lambda>x. js ''0.5'') True (SessionIdle (Some (js ''s1'')))
          \<lparr>dirExists = True,
           stateFile = Some (Json \<lparr>active = True, iteration = 1, maxIterations = 0, completionPromise = js ''DONE'',
             prompt = js ''fix it'', startedAt = [], sessionId = None, model = None, lastOutput = None\<rparr>),
           effects = [], isProcessing = False\<rparr>))
      = (Returned,
         snd (onEvent id (\<lambda>x. js ''0.5'') True (SessionIdle (Some (js ''s1'')))
          \<lparr>dirExists = True,
           stateFile = Some (Json \<lparr>active = True, iteration = 1, maxIterations = 0, completionPromise = js ''DONE'',
             prompt = js ''fix it'', startedAt = [], sessionId = None, model = None, lastOutput = None\<rparr>),
           effects = [], isProcessing = False\<rparr>))
   \<and> length (effects (hostRun id (\<lambda>x. js ''0.5'')
        [HostEvent True (SessionIdle (Some (js ''s1''))), HostEvent True (SessionIdle (Some (js ''s1''))),
         PromptSettles]
        \<lparr>dirExists = True,
         stateFile = Some (Json \<lparr>active = True, iteration = 1, maxIterations = 0, completionPromise = js ''DONE'',
           prompt = js ''fix it'', startedAt = [], sessionId = None, model = None, lastOutput = None\<rparr>),
         effects = [], isProcessing = False\<rparr>)) = 2"
proof -
  let ?state = "\<lparr>active = True, iteration = 1, maxIterations = 0, completionPromise = js ''DONE'',
         prompt = js ''fix it'', startedAt = [], sessionId = None, model = None, lastOutput = None\<rparr>"
  let ?h = "\<lparr>dirExists = True, stateFile = Some (Json ?state), effects = [], isProcessing = False\<rparr>"
  let ?h1 = "snd (onEvent id (\<lambda>x. js ''0.5'') True (SessionIdle (Some (js ''s1''))) ?h)"
  have "fst (onEvent id (\<lambda>x. js ''0.5'') True (SessionIdle (Some (js ''s1''))) ?h) = AwaitingPrompt"
    by (simp add: onEvent_def onIdle_def loadState_def truthy_def orElse_def maxIterationsReached_def
        Let_def js_def)
  then have suspended: "onEvent id (\<lambda>x. js ''0.5'') True (SessionIdle (Some (js ''s1''))) ?h = (AwaitingPrompt, ?h1)"
    by (simp add: prod_eq_iff)
  have quiet: "effects ?h = []" "mkdirEffects ?h = []"
    by (simp_all add: mkdirEffects_def)
  show ?thesis
    using second_idle_event_does_nothing [where h = ?h and hs = ?h1 and toUpper = id and fractionText = "(\<lambda>x. js ''0.5'')"
        and hasClient = True and hasClient' = True and eventSession = "Some (js ''s1'')"
        and eventSession' = "Some (js ''s1'')"] suspended quiet
    by auto
qed

section \<open>The iteration limit of both drivers\<close>












end
